theory Spec2Isabelle
  imports Complex_Main "HOL-Library.Multiset"
begin

section \<open>Wall-clock times and downtime\<close>

text \<open>
  Both entry programs read the call time and the back time from a time widget and
  receive a \<^verbatim>\<open>datetime.time\<close>. The downtime is
  \<^verbatim>\<open>(datetime.combine(datetime.today(), back) - datetime.combine(datetime.today(), called)).total_seconds() / 60\<close>.
  Both operands are combined with the same calendar day, so the difference is the
  difference of the two offsets from midnight. Python computes it in binary floating
  point; the model computes it in exact rationals (for the whole-minute times the widget
  delivers the two agree).
\<close>

record pytime =
  hour :: nat
  minute :: nat
  second :: nat
  microsecond :: nat

definition valid_time :: "pytime \<Rightarrow> bool" where
  "valid_time t = (hour t < 24 \<and> minute t < 60 \<and> second t < 60 \<and> microsecond t < 1000000)"

definition seconds_since_midnight :: "pytime \<Rightarrow> rat" where
  "seconds_since_midnight t =
     of_nat (3600 * hour t + 60 * minute t + second t) + of_nat (microsecond t) / 1000000"

definition total_seconds_between :: "pytime \<Rightarrow> pytime \<Rightarrow> rat" where
  \<comment> \<open>\<^verbatim>\<open>(combine(today, t2) - combine(today, t1)).total_seconds()\<close>\<close>
  "total_seconds_between t1 t2 = seconds_since_midnight t2 - seconds_since_midnight t1"

definition add_reactive_dt :: "pytime \<Rightarrow> pytime \<Rightarrow> rat" where
  \<comment> \<open>shift\_log.py, the Add Reactive handler: \<^verbatim>\<open>dt = ... / 60; if dt < 0: dt += 1440\<close>\<close>
  "add_reactive_dt r_called r_back =
     (let dt = total_seconds_between r_called r_back / 60
      in if dt < 0 then dt + 1440 else dt)"

definition calculate_downtime :: "pytime option \<Rightarrow> pytime option \<Rightarrow> rat" where
  \<comment> \<open>app.py: \<^verbatim>\<open>if t1 and t2: return (...).total_seconds() / 60\<close>, else \<^verbatim>\<open>return 0\<close>.
      A time object is truthy; only \<^verbatim>\<open>None\<close> takes the second branch.\<close>
  "calculate_downtime t1 t2 =
     (case (t1, t2) of
        (Some a, Some b) \<Rightarrow> total_seconds_between a b / 60
      | _ \<Rightarrow> 0)"

definition round_half_even :: "rat \<Rightarrow> int" where
  "round_half_even q =
     (let f = \<lfloor>q\<rfloor>; d = q - of_int f
      in if d < 1 / 2 then f else if 1 / 2 < d then f + 1 else if even f then f else f + 1)"

definition py_round :: "rat \<Rightarrow> nat \<Rightarrow> rat" where
  \<comment> \<open>\<^verbatim>\<open>round(x, n)\<close>: to \<open>n\<close> decimals, ties to the even neighbour\<close>
  "py_round x n = of_int (round_half_even (x * 10 ^ n)) / 10 ^ n"

definition digit :: "nat \<Rightarrow> char" where
  "digit n = ''0123456789'' ! (n mod 10)"

definition two_digits :: "nat \<Rightarrow> string" where
  "two_digits n = [digit (n div 10), digit n]"

definition show_time :: "pytime \<Rightarrow> string" where
  \<comment> \<open>\<^verbatim>\<open>str(t)\<close> of a \<^verbatim>\<open>datetime.time\<close>: \<^verbatim>\<open>HH:MM:SS\<close>, and the microseconds when not 0\<close>
  "show_time t =
     two_digits (hour t) @ '':'' @ two_digits (minute t) @ '':'' @ two_digits (second t)
     @ (if microsecond t = 0 then []
        else ''.'' @ two_digits (microsecond t div 10000)
             @ two_digits (microsecond t div 100) @ two_digits (microsecond t))"

section \<open>The spares inventory and low-stock detection\<close>

record inventory_row =
  inv_art_number :: string
  inv_description :: string
  inv_location :: string
  inv_category :: string
  inv_stock_level :: int
  inv_min_stock_level :: int

text \<open>
  dashboard.py selects the low-stock rows with a boolean mask:
  \<^verbatim>\<open>df_inventory[df_inventory['stock_level'] <= df_inventory['min_stock_level']]\<close>.
  The comparison of the two columns gives one boolean per row; indexing the frame with
  the mask keeps the rows whose boolean is true, in the frame's order.
\<close>

definition series_le :: "int list \<Rightarrow> int list \<Rightarrow> bool list" where
  "series_le xs ys = map (\<lambda>(x, y). x \<le> y) (zip xs ys)"

definition boolean_index :: "'a list \<Rightarrow> bool list \<Rightarrow> 'a list" where
  "boolean_index df keep = map fst (filter snd (zip df keep))"

definition low_stock :: "inventory_row list \<Rightarrow> inventory_row list" where
  "low_stock df_inventory =
     boolean_index df_inventory
       (series_le (map inv_stock_level df_inventory) (map inv_min_stock_level df_inventory))"

section \<open>The persistence store\<close>

text \<open>
  The two entry programs, app.py and shift\_log.py, and the dashboard open the same
  database file. A table is the list of its rows in rowid order. The row of table
  \<^verbatim>\<open>reports\<close> has the columns both programs declare; a column that an
  \<^verbatim>\<open>INSERT\<close> does not name is \<^verbatim>\<open>NULL\<close> (\<open>None\<close>). No code reads the
  \<^verbatim>\<open>id\<close> column of a child table, so a child row is its other columns.
\<close>

record report_row =
  rep_id :: nat
  rep_date :: string
  rep_shift :: string
  rep_engineer :: string
  rep_second_engineer :: "string option"
  rep_team_members :: "string option"
  rep_site_condition :: "string option"
  rep_radios_charged :: bool
  rep_phones_working :: bool
  rep_keys_handed :: "bool option"
  rep_safety_check :: "bool option"
  rep_urgent_notes :: string
  rep_other_tasks :: "string option"
  rep_submitted_at :: string

record reactive_row =
  rx_report_id :: nat
  rx_asset :: string
  rx_time_called :: string
  rx_time_back :: string
  rx_fault :: string
  rx_engineers :: int
  rx_description :: string
  rx_downtime :: rat
  rx_status :: "string option"

record ppm_row =
  pp_report_id :: nat
  pp_asset :: string
  pp_ppm_id :: string
  pp_status :: string
  pp_comments :: string

record spare_row =
  sp_report_id :: nat
  sp_art_number :: string
  sp_description :: string
  sp_location :: string
  sp_category :: string
  sp_quantity :: int
  sp_decision :: string

record spare_used_row =
  su_report_id :: nat
  su_art_number :: string
  su_description :: string
  su_location :: string
  su_quantity :: int
  su_decision :: string
  su_category_code :: int

record store =
  t_reports :: "report_row list"
  reports_seq :: nat
  t_reactives :: "reactive_row list"
  t_ppms :: "ppm_row list"
  t_spares :: "spare_row list"
  t_spares_used :: "spare_used_row list"
  t_spares_inventory :: "inventory_row list"

text \<open>
  Python's \<^verbatim>\<open>sqlite3\<close> opens a transaction before the first \<^verbatim>\<open>INSERT\<close>,
  \<^verbatim>\<open>UPDATE\<close> or \<^verbatim>\<open>DELETE\<close> of a connection: the statements change a working copy,
  \<^verbatim>\<open>conn.commit()\<close> makes the copy the store, and a connection that is dropped without
  a commit leaves the store as it was. A statement that the engine refuses raises; the
  code of the repository never catches it on a save, so the rest of the function is
  skipped. \<open>fail_after\<close> is the environment: the number of statements the engine still
  accepts (\<open>None\<close>: it accepts all).
\<close>

datatype error = OperationalError | IntegrityError

record conn =
  committed :: store
  working :: store
  fail_after :: "nat option"

definition connect :: "store \<Rightarrow> nat option \<Rightarrow> conn" where
  "connect db fault = \<lparr>committed = db, working = db, fail_after = fault\<rparr>"

definition execute :: "(store \<Rightarrow> store) \<Rightarrow> conn \<Rightarrow> (error \<times> conn) + conn" where
  "execute stmt c =
     (case fail_after c of
        None \<Rightarrow> Inr (c\<lparr>working := stmt (working c)\<rparr>)
      | Some 0 \<Rightarrow> Inl (OperationalError, c)
      | Some (Suc n) \<Rightarrow> Inr (c\<lparr>working := stmt (working c), fail_after := Some n\<rparr>))"

definition commit :: "conn \<Rightarrow> (error \<times> conn) + conn" where
  "commit c =
     (case fail_after c of
        None \<Rightarrow> Inr (c\<lparr>committed := working c\<rparr>)
      | Some 0 \<Rightarrow> Inl (OperationalError, c)
      | Some (Suc n) \<Rightarrow> Inr (c\<lparr>committed := working c, fail_after := Some n\<rparr>))"

fun for_each :: "('a \<Rightarrow> conn \<Rightarrow> (error \<times> conn) + conn) \<Rightarrow> 'a list \<Rightarrow> conn
    \<Rightarrow> (error \<times> conn) + conn" where
  "for_each body [] c = Inr c"
| "for_each body (x # xs) c =
     (case body x c of Inl e \<Rightarrow> Inl e | Inr c' \<Rightarrow> for_each body xs c')"

subsection \<open>The statements\<close>

definition next_report_id :: "store \<Rightarrow> nat" where
  \<comment> \<open>\<^verbatim>\<open>INTEGER PRIMARY KEY AUTOINCREMENT\<close>: one more than the largest id ever given\<close>
  "next_report_id s = Suc (fold max (map rep_id (t_reports s)) (reports_seq s))"

definition delete_reactives :: "nat \<Rightarrow> store \<Rightarrow> store" where
  "delete_reactives rid s = s\<lparr>t_reactives := filter (\<lambda>r. rx_report_id r \<noteq> rid) (t_reactives s)\<rparr>"

definition delete_ppms :: "nat \<Rightarrow> store \<Rightarrow> store" where
  "delete_ppms rid s = s\<lparr>t_ppms := filter (\<lambda>r. pp_report_id r \<noteq> rid) (t_ppms s)\<rparr>"

definition delete_spares :: "nat \<Rightarrow> store \<Rightarrow> store" where
  "delete_spares rid s = s\<lparr>t_spares := filter (\<lambda>r. sp_report_id r \<noteq> rid) (t_spares s)\<rparr>"

definition select_reactives :: "nat \<Rightarrow> store \<Rightarrow> reactive_row list" where
  "select_reactives rid s = filter (\<lambda>r. rx_report_id r = rid) (t_reactives s)"

definition select_ppms :: "nat \<Rightarrow> store \<Rightarrow> ppm_row list" where
  "select_ppms rid s = filter (\<lambda>r. pp_report_id r = rid) (t_ppms s)"

definition select_spares :: "nat \<Rightarrow> store \<Rightarrow> spare_row list" where
  "select_spares rid s = filter (\<lambda>r. sp_report_id r = rid) (t_spares s)"

definition select_report :: "nat \<Rightarrow> store \<Rightarrow> report_row option" where
  \<comment> \<open>\<^verbatim>\<open>SELECT * FROM reports WHERE id=?\<close> with \<^verbatim>\<open>fetchone()\<close>\<close>
  "select_report rid s =
     (case filter (\<lambda>h. rep_id h = rid) (t_reports s) of [] \<Rightarrow> None | h # _ \<Rightarrow> Some h)"

section \<open>app.py: the session and the report\<close>

text \<open>
  The session lists hold dictionaries. Every place that appends to a list writes the same
  keys, so an entry is a record of them. The key \<^verbatim>\<open>Status\<close> of a reactive entry is
  read with \<^verbatim>\<open>r.get('Status', 'Complete')\<close>: the default stands in for an absent
  key only, and a key that is present with the value \<^verbatim>\<open>None\<close> gives \<^verbatim>\<open>None\<close>.
  The entries of shift\_log.py do not have the key; the entries that app.py builds always
  have it, with \<^verbatim>\<open>None\<close> when the column of the row they come from is \<^verbatim>\<open>NULL\<close>.
\<close>

datatype 'a dict_key = Key_absent | Key 'a

record reactive_entry =
  r_Asset :: string
  r_Time_Called :: string
  r_Time_Back :: string
  r_Fault :: string
  r_Engineers :: int
  r_Description :: string
  r_Downtime_min :: rat
  r_Status :: "string option dict_key"

record ppm_entry =
  p_Asset :: string
  p_PPM_ID :: string
  p_Status :: string
  p_Comments :: string

record spare_entry =
  s_ART :: string
  s_Description :: string
  s_Location :: string
  s_Category :: string
  s_Quantity :: int
  s_Decision :: string

record session_state =
  reactives :: "reactive_entry list"
  ppms :: "ppm_entry list"
  spares :: "spare_entry list"
  editing_report_id :: "nat option"
  carry_over_checked :: bool

record report_data =
  rd_date :: string
  rd_shift :: string
  rd_engineer :: string
  rd_team_members :: string
  rd_site_condition :: string
  rd_radios_charged :: bool
  rd_phones_working :: bool
  rd_urgent_notes :: string
  rd_other_tasks :: string

definition init_session_state :: session_state where
  "init_session_state =
     \<lparr>reactives = [], ppms = [], spares = [], editing_report_id = None,
      carry_over_checked = False\<rparr>"

definition update_report :: "nat \<Rightarrow> report_data \<Rightarrow> string \<Rightarrow> store \<Rightarrow> store" where
  "update_report rid rd now s =
     s\<lparr>t_reports :=
         map (\<lambda>h. if rep_id h = rid
                   then h\<lparr>rep_date := rd_date rd, rep_shift := rd_shift rd,
                          rep_engineer := rd_engineer rd,
                          rep_team_members := Some (rd_team_members rd),
                          rep_site_condition := Some (rd_site_condition rd),
                          rep_radios_charged := rd_radios_charged rd,
                          rep_phones_working := rd_phones_working rd,
                          rep_urgent_notes := rd_urgent_notes rd,
                          rep_other_tasks := Some (rd_other_tasks rd),
                          rep_submitted_at := now\<rparr>
                   else h) (t_reports s)\<rparr>"

definition insert_report :: "report_data \<Rightarrow> string \<Rightarrow> store \<Rightarrow> store" where
  "insert_report rd now s =
     s\<lparr>t_reports := t_reports s @
          [\<lparr>rep_id = next_report_id s, rep_date = rd_date rd, rep_shift = rd_shift rd,
            rep_engineer = rd_engineer rd, rep_second_engineer = None,
            rep_team_members = Some (rd_team_members rd),
            rep_site_condition = Some (rd_site_condition rd),
            rep_radios_charged = rd_radios_charged rd,
            rep_phones_working = rd_phones_working rd,
            rep_keys_handed = None, rep_safety_check = None,
            rep_urgent_notes = rd_urgent_notes rd,
            rep_other_tasks = Some (rd_other_tasks rd), rep_submitted_at = now\<rparr>],
       reports_seq := next_report_id s\<rparr>"

definition reactive_row_of :: "nat \<Rightarrow> reactive_entry \<Rightarrow> reactive_row" where
  "reactive_row_of rid r =
     \<lparr>rx_report_id = rid, rx_asset = r_Asset r, rx_time_called = r_Time_Called r,
      rx_time_back = r_Time_Back r, rx_fault = r_Fault r, rx_engineers = r_Engineers r,
      rx_description = r_Description r, rx_downtime = r_Downtime_min r,
      rx_status = (case r_Status r of Key_absent \<Rightarrow> Some ''Complete'' | Key v \<Rightarrow> v)\<rparr>"

definition ppm_row_of :: "nat \<Rightarrow> ppm_entry \<Rightarrow> ppm_row" where
  "ppm_row_of rid p =
     \<lparr>pp_report_id = rid, pp_asset = p_Asset p, pp_ppm_id = p_PPM_ID p,
      pp_status = p_Status p, pp_comments = p_Comments p\<rparr>"

definition spare_row_of :: "nat \<Rightarrow> spare_entry \<Rightarrow> spare_row" where
  "spare_row_of rid s =
     \<lparr>sp_report_id = rid, sp_art_number = s_ART s, sp_description = s_Description s,
      sp_location = s_Location s, sp_category = s_Category s, sp_quantity = s_Quantity s,
      sp_decision = s_Decision s\<rparr>"

definition insert_reactive :: "nat \<Rightarrow> reactive_entry \<Rightarrow> store \<Rightarrow> store" where
  "insert_reactive rid r s = s\<lparr>t_reactives := t_reactives s @ [reactive_row_of rid r]\<rparr>"

definition insert_ppm :: "nat \<Rightarrow> ppm_entry \<Rightarrow> store \<Rightarrow> store" where
  "insert_ppm rid p s = s\<lparr>t_ppms := t_ppms s @ [ppm_row_of rid p]\<rparr>"

definition insert_spare :: "nat \<Rightarrow> spare_entry \<Rightarrow> store \<Rightarrow> store" where
  "insert_spare rid x s = s\<lparr>t_spares := t_spares s @ [spare_row_of rid x]\<rparr>"

definition write_header :: "session_state \<Rightarrow> report_data \<Rightarrow> string \<Rightarrow> conn
    \<Rightarrow> (error \<times> conn) + (nat \<times> conn)" where
  \<comment> \<open>\<^verbatim>\<open>if st.session_state.editing_report_id:\<close> is false for \<^verbatim>\<open>None\<close> and for 0\<close>
  "write_header st rd now c =
     (let editing = (case editing_report_id st of None \<Rightarrow> 0 | Some rid \<Rightarrow> rid)
      in if editing \<noteq> 0
         then (case for_each execute
                      [update_report editing rd now, delete_reactives editing,
                       delete_ppms editing, delete_spares editing] c of
                 Inl e \<Rightarrow> Inl e
               | Inr c' \<Rightarrow> Inr (editing, c'))
         else (case execute (insert_report rd now) c of
                 Inl e \<Rightarrow> Inl e
               | Inr c' \<Rightarrow> Inr (reports_seq (working c'), c')))"

definition insert_details :: "session_state \<Rightarrow> nat \<Rightarrow> conn \<Rightarrow> (error \<times> conn) + conn" where
  "insert_details st rid c =
     (case for_each (\<lambda>r. execute (insert_reactive rid r)) (reactives st) c of
        Inl e \<Rightarrow> Inl e
      | Inr c1 \<Rightarrow>
          (case for_each (\<lambda>p. execute (insert_ppm rid p)) (ppms st) c1 of
             Inl e \<Rightarrow> Inl e
           | Inr c2 \<Rightarrow> for_each (\<lambda>x. execute (insert_spare rid x)) (spares st) c2))"

definition save_report_to_db :: "store \<Rightarrow> nat option \<Rightarrow> session_state \<Rightarrow> report_data \<Rightarrow> string
    \<Rightarrow> store \<times> (error + nat)" where
  \<comment> \<open>the store that the call leaves behind, and the exception raised or the id returned\<close>
  "save_report_to_db db fault st rd now =
     (case write_header st rd now (connect db fault) of
        Inl (e, c) \<Rightarrow> (committed c, Inl e)
      | Inr (rid, c) \<Rightarrow>
          (case insert_details st rid c of
             Inl (e, c') \<Rightarrow> (committed c', Inl e)
           | Inr c' \<Rightarrow>
               (case commit c' of
                  Inl (e, c'') \<Rightarrow> (committed c'', Inl e)
                | Inr c'' \<Rightarrow> (committed c'', Inr rid))))"

definition reactive_entry_of :: "reactive_row \<Rightarrow> reactive_entry" where
  "reactive_entry_of row =
     \<lparr>r_Asset = rx_asset row, r_Time_Called = rx_time_called row,
      r_Time_Back = rx_time_back row, r_Fault = rx_fault row,
      r_Engineers = rx_engineers row, r_Description = rx_description row,
      r_Downtime_min = rx_downtime row, r_Status = Key (rx_status row)\<rparr>"

definition ppm_entry_of :: "ppm_row \<Rightarrow> ppm_entry" where
  "ppm_entry_of row =
     \<lparr>p_Asset = pp_asset row, p_PPM_ID = pp_ppm_id row, p_Status = pp_status row,
      p_Comments = pp_comments row\<rparr>"

definition spare_entry_of :: "spare_row \<Rightarrow> spare_entry" where
  "spare_entry_of row =
     \<lparr>s_ART = sp_art_number row, s_Description = sp_description row,
      s_Location = sp_location row, s_Category = sp_category row,
      s_Quantity = sp_quantity row, s_Decision = sp_decision row\<rparr>"

definition load_report_for_editing :: "store \<Rightarrow> session_state \<Rightarrow> nat \<Rightarrow> bool \<times> session_state" where
  "load_report_for_editing db st report_id =
     (case select_report report_id db of
        None \<Rightarrow> (False, st)
      | Some r \<Rightarrow>
          (True,
           st\<lparr>editing_report_id := Some report_id,
              reactives := map reactive_entry_of (select_reactives report_id db),
              ppms := map ppm_entry_of (select_ppms report_id db),
              spares := map spare_entry_of (select_spares report_id db)\<rparr>))"

subsection \<open>Carry-over at the start of a session\<close>

definition not_complete :: "reactive_row \<Rightarrow> bool" where
  \<comment> \<open>\<^verbatim>\<open>WHERE status != 'Complete'\<close>: a \<^verbatim>\<open>NULL\<close> status does not satisfy the comparison\<close>
  "not_complete row = (case rx_status row of None \<Rightarrow> False | Some s \<Rightarrow> s \<noteq> ''Complete'')"

definition carry_over_entry :: "reactive_row \<Rightarrow> reactive_entry" where
  "carry_over_entry row =
     \<lparr>r_Asset = rx_asset row, r_Time_Called = rx_time_called row,
      r_Time_Back = rx_time_back row, r_Fault = rx_fault row,
      r_Engineers = rx_engineers row,
      r_Description = ''[CARRY OVER] '' @ rx_description row,
      r_Downtime_min = rx_downtime row, r_Status = Key (rx_status row)\<rparr>"

definition check_carry_over_tasks :: "store \<Rightarrow> reactive_entry list" where
  "check_carry_over_tasks db =
     (let df = filter not_complete (t_reactives db)
      in if df \<noteq> [] then map carry_over_entry df else [])"

definition show_shift_log_auto :: "store \<Rightarrow> ppm_entry list \<Rightarrow> session_state \<Rightarrow> session_state" where
  \<comment> \<open>The block \<^verbatim>\<open>AUTO-LOGIC: Run once per session\<close> of \<^verbatim>\<open>show_shift_log\<close>.
      \<open>smart_ppms\<close> is what \<^verbatim>\<open>check_smart_ppms()\<close> returns: it reads the schedule file
      and the weekday, which are outside the store.\<close>
  "show_shift_log_auto db smart_ppms st =
     (if \<not> carry_over_checked st
         \<and> (case editing_report_id st of None \<Rightarrow> 0 | Some rid \<Rightarrow> rid) = 0
      then (let carry_over = check_carry_over_tasks db;
                st1 = (if carry_over \<noteq> [] then st\<lparr>reactives := reactives st @ carry_over\<rparr>
                       else st);
                st2 = (if smart_ppms \<noteq> [] then st1\<lparr>ppms := ppms st1 @ smart_ppms\<rparr>
                       else st1)
            in st2\<lparr>carry_over_checked := True\<rparr>)
      else st)"

definition add_reactive :: "string \<Rightarrow> pytime \<Rightarrow> pytime \<Rightarrow> string \<Rightarrow> string \<Rightarrow> int \<Rightarrow> string
    \<Rightarrow> session_state \<Rightarrow> session_state" where
  \<comment> \<open>app.py, the button Add Reactive; \<^verbatim>\<open>str(time)\<close> is given as \<open>show_time\<close> below\<close>
  "add_reactive r_asset r_called r_back r_fault r_status r_engs r_desc st =
     (let dt = calculate_downtime (Some r_called) (Some r_back)
      in st\<lparr>reactives := reactives st @
            [\<lparr>r_Asset = r_asset, r_Time_Called = show_time r_called,
              r_Time_Back = show_time r_back, r_Fault = r_fault, r_Engineers = r_engs,
              r_Description = r_desc, r_Downtime_min = py_round dt 1,
              r_Status = Key (Some r_status)\<rparr>]\<rparr>)"

subsection \<open>Stores and sessions that the programs produce\<close>

definition children_known :: "store \<Rightarrow> bool" where
  \<comment> \<open>every child row names a report id that has been given out\<close>
  "children_known s =
     (list_all (\<lambda>r. rx_report_id r \<le> reports_seq s) (t_reactives s)
      \<and> list_all (\<lambda>r. pp_report_id r \<le> reports_seq s) (t_ppms s)
      \<and> list_all (\<lambda>r. sp_report_id r \<le> reports_seq s) (t_spares s))"

definition editing_known :: "store \<Rightarrow> session_state \<Rightarrow> bool" where
  \<comment> \<open>the report being edited is in the store (\<^verbatim>\<open>load_report_for_editing\<close> sets the
      id only then, and no code deletes a report)\<close>
  "editing_known s st =
     (case editing_report_id st of
        None \<Rightarrow> True
      | Some e \<Rightarrow> e = 0 \<or> e \<in> set (map rep_id (t_reports s)))"

definition has_status_key :: "reactive_entry \<Rightarrow> bool" where
  "has_status_key r = (r_Status r \<noteq> Key_absent)"

definition with_status_key :: "reactive_entry \<Rightarrow> reactive_entry" where
  \<comment> \<open>the entry with the default of \<^verbatim>\<open>r.get('Status', 'Complete')\<close> written out\<close>
  "with_status_key r =
     (case r_Status r of Key_absent \<Rightarrow> r\<lparr>r_Status := Key (Some ''Complete'')\<rparr> | Key v \<Rightarrow> r)"

definition cancel_editing :: "session_state \<Rightarrow> session_state" where
  \<comment> \<open>the button Cancel Editing\<close>
  "cancel_editing st = st\<lparr>editing_report_id := None, reactives := [], ppms := [], spares := []\<rparr>"

definition empty_store :: store where
  "empty_store =
     \<lparr>t_reports = [], reports_seq = 0, t_reactives = [], t_ppms = [], t_spares = [],
      t_spares_used = [], t_spares_inventory = []\<rparr>"

subsection \<open>Example values\<close>

definition example_report_data :: report_data where
  "example_report_data =
     \<lparr>rd_date = ''2026-01-05'', rd_shift = ''Day Shift'', rd_engineer = ''John Smith'',
      rd_team_members = ''A B'', rd_site_condition = ''Normal'', rd_radios_charged = True,
      rd_phones_working = True, rd_urgent_notes = ''N/A'', rd_other_tasks = ''N/A''\<rparr>"

definition example_reactive :: reactive_entry where
  "example_reactive =
     \<lparr>r_Asset = ''Conveyor #1'', r_Time_Called = ''08:00:00'', r_Time_Back = ''08:45:00'',
      r_Fault = ''Mechanical'', r_Engineers = 1, r_Description = ''belt'',
      r_Downtime_min = 45, r_Status = Key (Some ''In Progress'')\<rparr>"

definition example_ppm :: ppm_entry where
  "example_ppm =
     \<lparr>p_Asset = ''Wrapper'', p_PPM_ID = ''W-1'', p_Status = ''Complete'', p_Comments = []\<rparr>"

definition example_spare :: spare_entry where
  "example_spare =
     \<lparr>s_ART = ''A1'', s_Description = ''belt'', s_Location = ''R1'', s_Category = ''Gen'',
      s_Quantity = 2, s_Decision = ''Used''\<rparr>"

definition example_reactive_2 :: reactive_entry where
  \<comment> \<open>an entry loaded from a row whose status column is \<^verbatim>\<open>NULL\<close>\<close>
  "example_reactive_2 =
     \<lparr>r_Asset = ''Wrapper'', r_Time_Called = ''23:30:00'', r_Time_Back = ''00:15:00'',
      r_Fault = ''Electrical'', r_Engineers = 2, r_Description = ''film'',
      r_Downtime_min = 45, r_Status = Key None\<rparr>"

definition example_reactive_3 :: reactive_entry where
  "example_reactive_3 =
     \<lparr>r_Asset = ''Palletiser'', r_Time_Called = ''10:00:00'', r_Time_Back = ''10:30:00'',
      r_Fault = ''Operational'', r_Engineers = 3, r_Description = ''jam'',
      r_Downtime_min = 30, r_Status = Key (Some ''Complete'')\<rparr>"

definition example_ppm_2 :: ppm_entry where
  "example_ppm_2 =
     \<lparr>p_Asset = ''Conveyor #1'', p_PPM_ID = ''C-7'', p_Status = ''In Progress'',
      p_Comments = ''Auto-scheduled''\<rparr>"

definition example_ppm_3 :: ppm_entry where
  "example_ppm_3 =
     \<lparr>p_Asset = ''Palletiser'', p_PPM_ID = ''P-2'', p_Status = ''Complete'', p_Comments = []\<rparr>"

definition example_spare_2 :: spare_entry where
  "example_spare_2 =
     \<lparr>s_ART = ''A2'', s_Description = ''fuse'', s_Location = ''R2'', s_Category = ''Gen'',
      s_Quantity = 1, s_Decision = ''Quarantined''\<rparr>"

definition example_spare_3 :: spare_entry where
  "example_spare_3 =
     \<lparr>s_ART = ''A3'', s_Description = ''bolt'', s_Location = ''R3'', s_Category = ''Gen'',
      s_Quantity = 4, s_Decision = ''Used''\<rparr>"

definition example_session :: session_state where
  "example_session =
     \<lparr>reactives = [example_reactive, example_reactive_2],
      ppms = [example_ppm, example_ppm_2], spares = [example_spare, example_spare_2],
      editing_report_id = None, carry_over_checked = True\<rparr>"

definition example_edit_A :: session_state where
  "example_edit_A = example_session\<lparr>editing_report_id := Some 1\<rparr>"

definition example_edit_B :: session_state where
  "example_edit_B =
     \<lparr>reactives = [example_reactive_3], ppms = [example_ppm_3], spares = [example_spare_3],
      editing_report_id = Some 1, carry_over_checked = True\<rparr>"

section \<open>shift\_log.py: the session and the report\<close>

text \<open>
  The entries of shift\_log.py: a reactive entry has no key \<^verbatim>\<open>Status\<close>, a PPM entry
  has the keys \<^verbatim>\<open>Asset\<close>, \<^verbatim>\<open>Status\<close> and \<^verbatim>\<open>Comments\<close>, a spare entry has a numeric
  \<^verbatim>\<open>Category Code\<close>.
\<close>

record sl_ppm_entry =
  lp_Asset :: string
  lp_Status :: string
  lp_Comments :: string

record sl_spare_entry =
  ls_ART :: string
  ls_Description :: string
  ls_Location :: string
  ls_Quantity :: int
  ls_Category_Code :: int
  ls_Decision :: string

record sl_session_state =
  sl_reactives :: "reactive_entry list"
  sl_ppms :: "sl_ppm_entry list"
  sl_other_tasks :: "unit list"
  sl_spares :: "sl_spare_entry list"

record shift_data =
  sd_date :: string
  sd_shift :: string
  sd_engineer :: string
  sd_second_engineer :: string
  sd_urgent_notes :: string
  sd_radios_charged :: bool
  sd_phones_working :: bool
  sd_keys_handed :: bool
  sd_safety_check :: bool

definition sl_add_reactive :: "string \<Rightarrow> string \<Rightarrow> pytime \<Rightarrow> pytime \<Rightarrow> string \<Rightarrow> string
    \<Rightarrow> sl_session_state \<Rightarrow> sl_session_state" where
  \<comment> \<open>the button Add Reactive of shift\_log.py; an empty second engineer is falsy\<close>
  "sl_add_reactive r_asset r_fault r_called r_back r_desc s_sec_eng st =
     (let dt = add_reactive_dt r_called r_back
      in st\<lparr>sl_reactives := sl_reactives st @
            [\<lparr>r_Asset = r_asset, r_Time_Called = show_time r_called,
              r_Time_Back = show_time r_back, r_Fault = r_fault,
              r_Engineers = (if s_sec_eng \<noteq> [] then 2 else 1),
              r_Description = r_desc, r_Downtime_min = py_round dt 1,
              r_Status = Key_absent\<rparr>]\<rparr>)"

definition sl_add_ppm :: "string \<Rightarrow> string \<Rightarrow> sl_session_state \<Rightarrow> sl_session_state" where
  "sl_add_ppm p_asset p_comm st =
     st\<lparr>sl_ppms := sl_ppms st @
          [\<lparr>lp_Asset = p_asset, lp_Status = ''Complete'', lp_Comments = p_comm\<rparr>]\<rparr>"

definition sl_insert_report :: "shift_data \<Rightarrow> string \<Rightarrow> store \<Rightarrow> store" where
  "sl_insert_report sd now s =
     s\<lparr>t_reports := t_reports s @
          [\<lparr>rep_id = next_report_id s, rep_date = sd_date sd, rep_shift = sd_shift sd,
            rep_engineer = sd_engineer sd,
            rep_second_engineer = Some (sd_second_engineer sd),
            rep_team_members = None, rep_site_condition = None,
            rep_radios_charged = sd_radios_charged sd,
            rep_phones_working = sd_phones_working sd,
            rep_keys_handed = Some (sd_keys_handed sd),
            rep_safety_check = Some (sd_safety_check sd),
            rep_urgent_notes = sd_urgent_notes sd,
            rep_other_tasks = None, rep_submitted_at = now\<rparr>],
       reports_seq := next_report_id s\<rparr>"

definition sl_reactive_row_of :: "nat \<Rightarrow> reactive_entry \<Rightarrow> reactive_row" where
  \<comment> \<open>the statement names no \<^verbatim>\<open>status\<close> column\<close>
  "sl_reactive_row_of rid r =
     \<lparr>rx_report_id = rid, rx_asset = r_Asset r, rx_time_called = r_Time_Called r,
      rx_time_back = r_Time_Back r, rx_fault = r_Fault r, rx_engineers = r_Engineers r,
      rx_description = r_Description r, rx_downtime = r_Downtime_min r, rx_status = None\<rparr>"

definition sl_insert_reactive :: "nat \<Rightarrow> reactive_entry \<Rightarrow> store \<Rightarrow> store" where
  "sl_insert_reactive rid r s = s\<lparr>t_reactives := t_reactives s @ [sl_reactive_row_of rid r]\<rparr>"

definition spare_used_row_of :: "nat \<Rightarrow> sl_spare_entry \<Rightarrow> spare_used_row" where
  "spare_used_row_of rid x =
     \<lparr>su_report_id = rid, su_art_number = ls_ART x, su_description = ls_Description x,
      su_location = ls_Location x, su_quantity = ls_Quantity x,
      su_decision = ls_Decision x, su_category_code = ls_Category_Code x\<rparr>"

definition insert_spare_used :: "nat \<Rightarrow> sl_spare_entry \<Rightarrow> store \<Rightarrow> store" where
  "insert_spare_used rid x s =
     s\<lparr>t_spares_used := t_spares_used s @ [spare_used_row_of rid x]\<rparr>"

definition update_stock :: "int \<Rightarrow> string \<Rightarrow> store \<Rightarrow> store" where
  \<comment> \<open>\<^verbatim>\<open>UPDATE spares_inventory SET stock_level = stock_level - ? WHERE art_number = ?\<close>\<close>
  "update_stock qty art s =
     s\<lparr>t_spares_inventory :=
         map (\<lambda>i. if inv_art_number i = art
                   then i\<lparr>inv_stock_level := inv_stock_level i - qty\<rparr> else i)
           (t_spares_inventory s)\<rparr>"

definition save_spare :: "nat \<Rightarrow> sl_spare_entry \<Rightarrow> conn \<Rightarrow> (error \<times> conn) + conn" where
  \<comment> \<open>the body of \<^verbatim>\<open>for s in st.session_state.spares\<close>: the insert, then the update\<close>
  "save_spare rid x c =
     (case execute (insert_spare_used rid x) c of
        Inl e \<Rightarrow> Inl e
      | Inr c' \<Rightarrow> execute (update_stock (ls_Quantity x) (ls_ART x)) c')"

definition sl_write_rows :: "sl_session_state \<Rightarrow> shift_data \<Rightarrow> string \<Rightarrow> conn
    \<Rightarrow> (error \<times> conn) + (nat \<times> conn)" where
  \<comment> \<open>the header, \<^verbatim>\<open>rid = c.lastrowid\<close>, the loop over the reactives and the loop over
      the spares; the PPM list of the session is not read\<close>
  "sl_write_rows st sd now c =
     (case execute (sl_insert_report sd now) c of
        Inl e \<Rightarrow> Inl e
      | Inr c0 \<Rightarrow>
          (case for_each (\<lambda>r. execute (sl_insert_reactive (reports_seq (working c0)) r))
                  (sl_reactives st) c0 of
             Inl e \<Rightarrow> Inl e
           | Inr c1 \<Rightarrow>
               (case for_each (save_spare (reports_seq (working c0))) (sl_spares st) c1 of
                  Inl e \<Rightarrow> Inl e
                | Inr c2 \<Rightarrow> Inr (reports_seq (working c0), c2))))"

definition sl_save_report :: "store \<Rightarrow> nat option \<Rightarrow> sl_session_state \<Rightarrow> shift_data \<Rightarrow> string
    \<Rightarrow> store \<times> (error + nat)" where
  \<comment> \<open>The database part of the handler of SAVE REPORT, up to \<^verbatim>\<open>conn.commit()\<close>: the
      store that it leaves behind, and the exception raised or the new report id.\<close>
  "sl_save_report db fault st sd now =
     (case sl_write_rows st sd now (connect db fault) of
        Inl (e, c) \<Rightarrow> (committed c, Inl e)
      | Inr (rid, c2) \<Rightarrow>
          (case commit c2 of
             Inl (e, c) \<Rightarrow> (committed c, Inl e)
           | Inr c3 \<Rightarrow> (committed c3, Inr rid)))"

definition quantity_used :: "sl_spare_entry list \<Rightarrow> string \<Rightarrow> int" where
  \<comment> \<open>the quantities that the spare entries of a session give for one part number\<close>
  "quantity_used xs art = sum_list (map ls_Quantity (filter (\<lambda>x. ls_ART x = art) xs))"

definition example_shift_data :: shift_data where
  "example_shift_data =
     \<lparr>sd_date = ''2026-01-05'', sd_shift = ''Day'', sd_engineer = ''Alf Fidoe'',
      sd_second_engineer = [], sd_urgent_notes = ''none'', sd_radios_charged = True,
      sd_phones_working = True, sd_keys_handed = True, sd_safety_check = True\<rparr>"

definition example_sl_spare :: sl_spare_entry where
  "example_sl_spare =
     \<lparr>ls_ART = ''A1'', ls_Description = ''belt'', ls_Location = ''R1'', ls_Quantity = 3,
      ls_Category_Code = 1, ls_Decision = ''Disposed''\<rparr>"

definition example_inventory :: "inventory_row list" where
  "example_inventory =
     [\<lparr>inv_art_number = ''A1'', inv_description = ''belt'', inv_location = ''R1'',
       inv_category = ''General'', inv_stock_level = 10, inv_min_stock_level = 2\<rparr>,
      \<lparr>inv_art_number = ''A2'', inv_description = ''fuse'', inv_location = ''R2'',
       inv_category = ''General'', inv_stock_level = 7, inv_min_stock_level = 2\<rparr>]"

definition example_sl_session :: sl_session_state where
  "example_sl_session =
     \<lparr>sl_reactives = [example_reactive\<lparr>r_Status := Key_absent\<rparr>],
      sl_ppms = [\<lparr>lp_Asset = ''Wrapper'', lp_Status = ''Complete'', lp_Comments = ''done''\<rparr>],
      sl_other_tasks = [], sl_spares = [example_sl_spare]\<rparr>"

definition example_sl_session_absent :: sl_session_state where
  \<comment> \<open>a session whose spare names a part that the inventory does not have\<close>
  "example_sl_session_absent =
     \<lparr>sl_reactives = [], sl_ppms = [], sl_other_tasks = [],
      sl_spares = [example_sl_spare\<lparr>ls_ART := ''ZZ''\<rparr>]\<rparr>"

definition example_stocked_store :: store where
  "example_stocked_store = empty_store\<lparr>t_spares_inventory := example_inventory\<rparr>"

subsection \<open>Reloading the inventory from the catalog\<close>

text \<open>
  A cell of the catalog frame is a value or \<^verbatim>\<open>NaN\<close>; \<open>Val s\<close> holds what
  \<^verbatim>\<open>str\<close> gives for the value. A row offers the six column names that
  \<^verbatim>\<open>reload_spares_from_csv\<close> asks for; \<open>None\<close> is a column the file does not have.
\<close>

datatype cell = NaN | Val string

record csv_row =
  c_art_number :: "cell option"
  c_Part_Number :: "cell option"
  c_Description :: "cell option"
  c_description :: "cell option"
  c_Location :: "cell option"
  c_location :: "cell option"

datatype csv_file = Missing | Unreadable | Frame "csv_row list"

datatype message = Loaded nat nat | File_not_found | Error_reading_CSV

definition py_str :: "cell \<Rightarrow> string" where
  "py_str v = (case v of NaN \<Rightarrow> ''nan'' | Val s \<Rightarrow> s)"

definition row_get :: "cell option \<Rightarrow> string \<Rightarrow> string" where
  \<comment> \<open>\<^verbatim>\<open>str(row.get(key, default))\<close> for a string default\<close>
  "row_get v dflt = (case v of None \<Rightarrow> dflt | Some x \<Rightarrow> py_str x)"

definition row_p_num :: "csv_row \<Rightarrow> string" where
  "row_p_num row = row_get (c_art_number row) (row_get (c_Part_Number row) ''UNKNOWN'')"

definition row_desc :: "csv_row \<Rightarrow> string" where
  "row_desc row = row_get (c_Description row) (row_get (c_description row) [])"

definition row_loc :: "csv_row \<Rightarrow> string" where
  "row_loc row = row_get (c_Location row) (row_get (c_location row) [])"

definition delete_inventory :: "store \<Rightarrow> store" where
  "delete_inventory s = s\<lparr>t_spares_inventory := []\<rparr>"

definition insert_or_replace_inventory :: "inventory_row \<Rightarrow> store \<Rightarrow> store" where
  \<comment> \<open>\<^verbatim>\<open>INSERT OR REPLACE\<close> on the primary key \<^verbatim>\<open>art_number\<close>: a row with the same
      key is deleted, then the new row is inserted; no error is raised for the conflict\<close>
  "insert_or_replace_inventory new s =
     s\<lparr>t_spares_inventory :=
         filter (\<lambda>i. inv_art_number i \<noteq> inv_art_number new) (t_spares_inventory s) @ [new]\<rparr>"

definition catalog_row :: "csv_row \<Rightarrow> inventory_row" where
  "catalog_row row =
     \<lparr>inv_art_number = row_p_num row, inv_description = row_desc row,
      inv_location = row_loc row, inv_category = ''General'', inv_stock_level = 10,
      inv_min_stock_level = 2\<rparr>"

definition skipped :: "csv_row \<Rightarrow> bool" where
  "skipped row = (row_p_num row = ''UNKNOWN'' \<or> row_p_num row = ''nan'')"

fun reload_rows :: "csv_row list \<Rightarrow> nat \<Rightarrow> nat \<Rightarrow> conn \<Rightarrow> (error \<times> conn) + (nat \<times> nat \<times> conn)" where
  "reload_rows [] loaded duplicates c = Inr (loaded, duplicates, c)"
| "reload_rows (row # rows) loaded duplicates c =
     (if skipped row then reload_rows rows loaded duplicates c
      else (case execute (insert_or_replace_inventory (catalog_row row)) c of
              Inr c' \<Rightarrow> reload_rows rows (loaded + 1) duplicates c'
            | Inl (IntegrityError, c') \<Rightarrow> reload_rows rows loaded (duplicates + 1) c'
            | Inl (e, c') \<Rightarrow> Inl (e, c')))"

definition reload_spares_from_csv :: "store \<Rightarrow> nat option \<Rightarrow> csv_file \<Rightarrow> store \<times> message" where
  \<comment> \<open>the store that the call leaves behind, and the message shown in the sidebar\<close>
  "reload_spares_from_csv db fault file =
     (case file of
        Missing \<Rightarrow> (db, File_not_found)
      | Unreadable \<Rightarrow> (db, Error_reading_CSV)
      | Frame df \<Rightarrow>
          (case execute delete_inventory (connect db fault) of
             Inl (e, c) \<Rightarrow> (committed c, Error_reading_CSV)
           | Inr c \<Rightarrow>
               (case reload_rows df 0 0 c of
                  Inl (e, c') \<Rightarrow> (committed c', Error_reading_CSV)
                | Inr (loaded, duplicates, c') \<Rightarrow>
                    (case commit c' of
                       Inl (e, c'') \<Rightarrow> (committed c'', Error_reading_CSV)
                     | Inr c'' \<Rightarrow> (committed c'', Loaded loaded duplicates)))))"

definition example_csv_row :: "string \<Rightarrow> string \<Rightarrow> string \<Rightarrow> csv_row" where
  \<comment> \<open>a row of a catalog with the columns Part Number, Description and Location\<close>
  "example_csv_row p d l =
     \<lparr>c_art_number = None, c_Part_Number = Some (Val p), c_Description = Some (Val d),
      c_description = None, c_Location = Some (Val l), c_location = None\<rparr>"

definition example_catalog :: "csv_row list" where
  \<comment> \<open>the part number A1 twice, and a row with an empty part number\<close>
  "example_catalog =
     [example_csv_row ''A1'' ''belt'' ''R1'', example_csv_row ''B7'' ''fuse'' ''R2'',
      (example_csv_row [] ''nut'' ''R3'')\<lparr>c_Part_Number := Some NaN\<rparr>,
      example_csv_row ''A1'' ''belt, wide'' ''R9'']"

section \<open>Statements, loops and the commit\<close>

lemma execute_Inr:
  assumes "execute stmt c = Inr c'"
  shows "working c' = stmt (working c)" and "committed c' = committed c"
  using assms by (auto simp: execute_def split: option.splits nat.splits)

lemma execute_Inl:
  assumes "execute stmt c = Inl (e, c')"
  shows "c' = c" and "e = OperationalError"
  using assms by (auto simp: execute_def split: option.splits nat.splits)

lemma execute_no_fault:
  "fail_after c = None \<Longrightarrow> execute stmt c = Inr (c\<lparr>working := stmt (working c)\<rparr>)"
  by (simp add: execute_def)

lemma commit_Inr: "commit c = Inr c' \<Longrightarrow> committed c' = working c"
  by (auto simp: commit_def split: option.splits nat.splits)

lemma commit_Inl: "commit c = Inl (e, c') \<Longrightarrow> c' = c"
  by (auto simp: commit_def split: option.splits nat.splits)

lemma commit_no_fault:
  "fail_after c = None \<Longrightarrow> commit c = Inr (c\<lparr>committed := working c\<rparr>)"
  by (simp add: commit_def)

text \<open>A loop whose body runs statements only: what it does to the working copy, and
  that it leaves the committed store alone, whether it ends or raises.\<close>

lemma for_each_Inr:
  assumes body: "\<And>x c c'. body x c = Inr c' \<Longrightarrow>
      working c' = g x (working c) \<and> committed c' = committed c"
    and run: "for_each body xs c = Inr c'"
  shows "working c' = fold g xs (working c) \<and> committed c' = committed c"
  using run
proof (induction xs arbitrary: c)
  case Nil
  then show ?case by simp
next
  case (Cons x xs)
  from Cons.prems obtain c1 where step: "body x c = Inr c1"
    and rest: "for_each body xs c1 = Inr c'"
    by (auto split: sum.splits)
  from Cons.IH [OF rest] body [OF step] show ?case by simp
qed


lemma for_each_no_fault:
  assumes body: "\<And>x c. fail_after c = None \<Longrightarrow> body x c = Inr (c\<lparr>working := g x (working c)\<rparr>)"
    and "fail_after c = None"
  shows "for_each body xs c = Inr (c\<lparr>working := fold g xs (working c)\<rparr>)"
  using assms(2)
proof (induction xs arbitrary: c)
  case Nil
  then show ?case by simp
next
  case (Cons x xs)
  have "fail_after (c\<lparr>working := g x (working c)\<rparr>) = None"
    using Cons.prems by simp
  from Cons.IH [OF this] body [OF Cons.prems] show ?case by simp
qed

lemma statements_Inr:
  "for_each (\<lambda>x. execute (g x)) xs c = Inr c' \<Longrightarrow>
     working c' = fold g xs (working c) \<and> committed c' = committed c"
  by (rule for_each_Inr [where body = "\<lambda>x. execute (g x)"]) (auto dest: execute_Inr)


lemma statements_no_fault:
  "fail_after c = None \<Longrightarrow>
     for_each (\<lambda>x. execute (g x)) xs c = Inr (c\<lparr>working := fold g xs (working c)\<rparr>)"
  by (rule for_each_no_fault) (simp_all add: execute_no_fault)

lemma fold_insert_reactive:
  "fold (insert_reactive rid) rs s
     = s\<lparr>t_reactives := t_reactives s @ map (reactive_row_of rid) rs\<rparr>"
  by (induction rs arbitrary: s) (simp_all add: insert_reactive_def)

lemma fold_insert_ppm:
  "fold (insert_ppm rid) ps s = s\<lparr>t_ppms := t_ppms s @ map (ppm_row_of rid) ps\<rparr>"
  by (induction ps arbitrary: s) (simp_all add: insert_ppm_def)

lemma fold_insert_spare:
  "fold (insert_spare rid) xs s = s\<lparr>t_spares := t_spares s @ map (spare_row_of rid) xs\<rparr>"
  by (induction xs arbitrary: s) (simp_all add: insert_spare_def)

section \<open>Downtime: the two entry points\<close>

lemma seconds_since_midnight_bounds:
  assumes "valid_time t"
  shows "0 \<le> seconds_since_midnight t" and "seconds_since_midnight t < 86400"
proof -
  show "0 \<le> seconds_since_midnight t"
    by (simp add: seconds_since_midnight_def)
  have whole: "3600 * hour t + 60 * minute t + second t \<le> 86399"
    using assms by (simp add: valid_time_def)
  have frac: "(of_nat (microsecond t) :: rat) / 1000000 < 1"
    using assms by (simp add: valid_time_def)
  have "(of_nat (3600 * hour t + 60 * minute t + second t) :: rat) \<le> of_nat 86399"
    using whole of_nat_le_iff by blast
  then show "seconds_since_midnight t < 86400"
    using frac by (simp add: seconds_since_midnight_def)
qed

lemma add_reactive_dt_range:
  assumes "valid_time r_called" and "valid_time r_back"
  shows "0 \<le> add_reactive_dt r_called r_back \<and> add_reactive_dt r_called r_back < 1440"
proof -
  have "\<bar>total_seconds_between r_called r_back\<bar> < 86400"
    using seconds_since_midnight_bounds [OF assms(1)] seconds_since_midnight_bounds [OF assms(2)]
    by (simp add: total_seconds_between_def abs_less_iff)
  then show ?thesis
    by (simp add: add_reactive_dt_def Let_def abs_less_iff)
qed

lemma add_reactive_dt_value:
  "add_reactive_dt r_called r_back =
     (if seconds_since_midnight r_back < seconds_since_midnight r_called
      then total_seconds_between r_called r_back / 60 + 1440
      else total_seconds_between r_called r_back / 60)"
  by (simp add: add_reactive_dt_def Let_def total_seconds_between_def)

lemma add_reactive_dt_same_time: "add_reactive_dt t t = 0"
  by (simp add: add_reactive_dt_def total_seconds_between_def)

text \<open>
  C1. The claim asks for the downtime to be the difference of the two times brought
  into the range from 0 to 1440 minutes at every entry point. The handler of
  shift\_log.py does so (lemmas \<open>add_reactive_dt_range\<close>, \<open>add_reactive_dt_value\<close>,
  \<open>add_reactive_dt_same_time\<close>). The function \<open>calculate_downtime\<close> of app.py does
  not add the 1440 minutes: for a call at 23:30 and a return at 00:15 it gives
  minus 1395 minutes, where the handler of shift\_log.py gives 45.
\<close>

theorem calculate_downtime_omits_rollover:
  "calculate_downtime
     (Some \<lparr>hour = 23, minute = 30, second = 0, microsecond = 0\<rparr>)
     (Some \<lparr>hour = 0, minute = 15, second = 0, microsecond = 0\<rparr>) = - 1395
   \<and> py_round (- 1395) 1 = - 1395
   \<and> add_reactive_dt
     \<lparr>hour = 23, minute = 30, second = 0, microsecond = 0\<rparr>
     \<lparr>hour = 0, minute = 15, second = 0, microsecond = 0\<rparr> = 45"
  by (simp add: calculate_downtime_def add_reactive_dt_def total_seconds_between_def
      seconds_since_midnight_def py_round_def round_half_even_def Let_def)

section \<open>app.py: saving a report\<close>

lemma run_statements_Inr:
  "for_each execute stmts c = Inr c' \<Longrightarrow>
     working c' = fold (\<lambda>f. f) stmts (working c) \<and> committed c' = committed c"
  using statements_Inr [where g = "\<lambda>f. f" and xs = stmts] by simp


lemma run_statements_no_fault:
  "fail_after c = None \<Longrightarrow>
     for_each execute stmts c = Inr (c\<lparr>working := fold (\<lambda>f. f) stmts (working c)\<rparr>)"
  using statements_no_fault [where g = "\<lambda>f. f" and xs = stmts] by simp


lemma write_header_update:
  assumes "write_header st rd now c = Inr (rid, c')"
    and "editing_report_id st = Some e" and "e \<noteq> 0"
  shows "rid = e" and "committed c' = committed c"
    and "working c' =
      delete_spares e (delete_ppms e (delete_reactives e (update_report e rd now (working c))))"
proof -
  from assms have run: "for_each execute
      [update_report e rd now, delete_reactives e, delete_ppms e, delete_spares e] c = Inr c'"
    and "rid = e"
    by (simp_all add: write_header_def split: sum.splits del: for_each.simps)
  then show "rid = e" by simp
  from run_statements_Inr [OF run]
  show "committed c' = committed c"
    and "working c' =
      delete_spares e (delete_ppms e (delete_reactives e (update_report e rd now (working c))))"
    by simp_all
qed

lemma write_header_insert:
  assumes "write_header st rd now c = Inr (rid, c')"
    and "editing_report_id st = None \<or> editing_report_id st = Some 0"
  shows "rid = next_report_id (working c)" and "committed c' = committed c"
    and "working c' = insert_report rd now (working c)"
proof -
  from assms have run: "execute (insert_report rd now) c = Inr c'"
    and rid: "rid = reports_seq (working c')"
    by (auto simp: write_header_def split: sum.splits)
  from execute_Inr [OF run] rid
  show "rid = next_report_id (working c)" and "committed c' = committed c"
    and "working c' = insert_report rd now (working c)"
    by (simp_all add: insert_report_def)
qed



lemma insert_details_Inr:
  assumes "insert_details st rid c = Inr c'"
  shows "committed c' = committed c"
    and "working c' =
      (working c)\<lparr>t_reactives := t_reactives (working c) @ map (reactive_row_of rid) (reactives st),
                  t_ppms := t_ppms (working c) @ map (ppm_row_of rid) (ppms st),
                  t_spares := t_spares (working c) @ map (spare_row_of rid) (spares st)\<rparr>"
  using assms
  by (auto simp: insert_details_def fold_insert_reactive fold_insert_ppm fold_insert_spare
      split: sum.splits dest!: statements_Inr)


lemma save_report_to_db_returned:
  assumes "save_report_to_db db fault st rd now = (db', Inr rid)"
  shows "\<exists>c. write_header st rd now (connect db fault) = Inr (rid, c)
     \<and> db' = (working c)\<lparr>
          t_reactives := t_reactives (working c) @ map (reactive_row_of rid) (reactives st),
          t_ppms := t_ppms (working c) @ map (ppm_row_of rid) (ppms st),
          t_spares := t_spares (working c) @ map (spare_row_of rid) (spares st)\<rparr>"
proof -
  from assms obtain c c1 c2 where hdr: "write_header st rd now (connect db fault) = Inr (rid, c)"
    and det: "insert_details st rid c = Inr c1"
    and com: "commit c1 = Inr c2" and db': "db' = committed c2"
    by (auto simp: save_report_to_db_def split: sum.splits prod.splits)
  from commit_Inr [OF com] insert_details_Inr(2) [OF det] db' hdr
  show ?thesis by simp
qed

lemma save_report_to_db_update:
  assumes "save_report_to_db db fault st rd now = (db', Inr rid)"
    and "editing_report_id st = Some e" and "e \<noteq> 0"
  shows "rid = e"
    and "select_reactives e db' = map (reactive_row_of e) (reactives st)"
    and "select_ppms e db' = map (ppm_row_of e) (ppms st)"
    and "select_spares e db' = map (spare_row_of e) (spares st)"
    and "map rep_id (t_reports db') = map rep_id (t_reports db)"
proof -
  from save_report_to_db_returned [OF assms(1)] obtain c
    where hdr: "write_header st rd now (connect db fault) = Inr (rid, c)"
      and db': "db' = (working c)\<lparr>
          t_reactives := t_reactives (working c) @ map (reactive_row_of rid) (reactives st),
          t_ppms := t_ppms (working c) @ map (ppm_row_of rid) (ppms st),
          t_spares := t_spares (working c) @ map (spare_row_of rid) (spares st)\<rparr>"
    by blast
  from write_header_update [OF hdr assms(2,3)]
  have rid: "rid = e"
    and w: "working c = delete_spares e (delete_ppms e (delete_reactives e
              (update_report e rd now db)))"
    by (simp_all add: connect_def)
  show "rid = e" by (rule rid)
  have keep: "filter (\<lambda>r. f r = e) (map (g e) xs) = map (g e) xs"
    if "\<And>x. f (g e x) = e" for f :: "'r \<Rightarrow> nat" and g :: "nat \<Rightarrow> 'x \<Rightarrow> 'r" and xs
    using that by (induction xs) simp_all
  show "select_reactives e db' = map (reactive_row_of e) (reactives st)"
    unfolding db' w rid
    by (simp add: select_reactives_def delete_spares_def delete_ppms_def delete_reactives_def
        update_report_def keep reactive_row_of_def)
  show "select_ppms e db' = map (ppm_row_of e) (ppms st)"
    unfolding db' w rid
    by (simp add: select_ppms_def delete_spares_def delete_ppms_def delete_reactives_def
        update_report_def keep ppm_row_of_def)
  show "select_spares e db' = map (spare_row_of e) (spares st)"
    unfolding db' w rid
    by (simp add: select_spares_def delete_spares_def delete_ppms_def delete_reactives_def
        update_report_def keep spare_row_of_def)
  show "map rep_id (t_reports db') = map rep_id (t_reports db)"
    unfolding db' w rid
    by (simp add: delete_spares_def delete_ppms_def delete_reactives_def update_report_def
        comp_def)
qed

lemma fold_max_ge: "(m::nat) \<le> fold max xs m"
proof (induction xs arbitrary: m)
  case Nil
  then show ?case by simp
next
  case (Cons y ys)
  have "m \<le> max y m" by simp
  also have "max y m \<le> fold max ys (max y m)" by (rule Cons.IH)
  finally show ?case by simp
qed

lemma fold_max_mem: "(x::nat) \<in> set xs \<Longrightarrow> x \<le> fold max xs m"
proof (induction xs arbitrary: m)
  case Nil
  then show ?case by simp
next
  case (Cons y ys)
  show ?case
  proof (cases "x = y")
    case True
    have "x \<le> max y m" using True by simp
    also have "max y m \<le> fold max ys (max y m)" by (rule fold_max_ge)
    finally show ?thesis by simp
  next
    case False
    with Cons.prems have "x \<in> set ys" by simp
    from Cons.IH [OF this] show ?thesis by simp
  qed
qed

lemma next_report_id_fresh:
  "reports_seq s < next_report_id s"
  "h \<in> set (t_reports s) \<Longrightarrow> rep_id h < next_report_id s"
  using fold_max_ge [where m = "reports_seq s" and xs = "map rep_id (t_reports s)"]
    fold_max_mem [where x = "rep_id h" and xs = "map rep_id (t_reports s)"
      and m = "reports_seq s"]
  by (auto simp: next_report_id_def)

lemma filter_none: "(\<And>x. x \<in> set xs \<Longrightarrow> \<not> P x) \<Longrightarrow> filter P xs = []"
  by (induction xs) simp_all

lemma filter_all: "(\<And>x. x \<in> set xs \<Longrightarrow> P x) \<Longrightarrow> filter P xs = xs"
  by (induction xs) simp_all

lemma save_report_to_db_create:
  assumes "save_report_to_db db fault st rd now = (db', Inr rid)"
    and "editing_report_id st = None \<or> editing_report_id st = Some 0"
    and "children_known db"
  shows "rid = next_report_id db"
    and "select_reactives rid db' = map (reactive_row_of rid) (reactives st)"
    and "select_ppms rid db' = map (ppm_row_of rid) (ppms st)"
    and "select_spares rid db' = map (spare_row_of rid) (spares st)"
    and "select_report rid db' \<noteq> None"
proof -
  from save_report_to_db_returned [OF assms(1)] obtain c
    where hdr: "write_header st rd now (connect db fault) = Inr (rid, c)"
      and db': "db' = (working c)\<lparr>
          t_reactives := t_reactives (working c) @ map (reactive_row_of rid) (reactives st),
          t_ppms := t_ppms (working c) @ map (ppm_row_of rid) (ppms st),
          t_spares := t_spares (working c) @ map (spare_row_of rid) (spares st)\<rparr>"
    by blast
  from write_header_insert [OF hdr assms(2)]
  have rid: "rid = next_report_id db" and w: "working c = insert_report rd now db"
    by (simp_all add: connect_def)
  show "rid = next_report_id db" by (rule rid)
  have fresh: "reports_seq db < rid"
    using next_report_id_fresh(1) [of db] rid by simp
  have old_rx: "filter (\<lambda>r. rx_report_id r = rid) (t_reactives db) = []"
    using assms(3) fresh by (intro filter_none) (auto simp: children_known_def list_all_iff)
  have old_pp: "filter (\<lambda>r. pp_report_id r = rid) (t_ppms db) = []"
    using assms(3) fresh by (intro filter_none) (auto simp: children_known_def list_all_iff)
  have old_sp: "filter (\<lambda>r. sp_report_id r = rid) (t_spares db) = []"
    using assms(3) fresh by (intro filter_none) (auto simp: children_known_def list_all_iff)
  show "select_reactives rid db' = map (reactive_row_of rid) (reactives st)"
    unfolding db' w
    by (simp add: select_reactives_def insert_report_def old_rx filter_all reactive_row_of_def)
  show "select_ppms rid db' = map (ppm_row_of rid) (ppms st)"
    unfolding db' w
    by (simp add: select_ppms_def insert_report_def old_pp filter_all ppm_row_of_def)
  show "select_spares rid db' = map (spare_row_of rid) (spares st)"
    unfolding db' w
    by (simp add: select_spares_def insert_report_def old_sp filter_all spare_row_of_def)
  show "select_report rid db' \<noteq> None"
    unfolding db' w
    by (simp add: select_report_def insert_report_def rid split: list.splits)
qed

lemma select_report_None_iff:
  "select_report rid s = None \<longleftrightarrow> rid \<notin> set (map rep_id (t_reports s))"
proof -
  have "filter (\<lambda>h. rep_id h = rid) (t_reports s) = [] \<longleftrightarrow> rid \<notin> set (map rep_id (t_reports s))"
    by (auto simp: filter_empty_conv)
  then show ?thesis
    by (cases "filter (\<lambda>h. rep_id h = rid) (t_reports s)") (simp_all add: select_report_def)
qed

lemma write_header_no_fault:
  "\<exists>rid w. write_header st rd now (connect db None)
     = Inr (rid, \<lparr>committed = db, working = w, fail_after = None\<rparr>)"
  by (simp add: write_header_def Let_def run_statements_no_fault execute_no_fault connect_def
      del: for_each.simps)

lemma insert_details_no_fault:
  "fail_after c = None \<Longrightarrow> \<exists>c'. insert_details st rid c = Inr c' \<and> fail_after c' = None"
  by (simp add: insert_details_def statements_no_fault)

lemma save_report_to_db_returns:
  "\<exists>db' rid. save_report_to_db db None st rd now = (db', Inr rid)"
proof -
  obtain rid w where hdr: "write_header st rd now (connect db None)
      = Inr (rid, \<lparr>committed = db, working = w, fail_after = None\<rparr>)"
    using write_header_no_fault by blast
  obtain c' where det: "insert_details st rid \<lparr>committed = db, working = w, fail_after = None\<rparr>
      = Inr c'" and nf: "fail_after c' = None"
    using insert_details_no_fault [of "\<lparr>committed = db, working = w, fail_after = None\<rparr>"]
    by auto
  show ?thesis
    by (simp add: save_report_to_db_def hdr det commit_no_fault [OF nf])
qed

lemma reactive_entry_roundtrip:
  "reactive_entry_of (reactive_row_of rid r) = with_status_key r"
  by (cases r) (auto simp: reactive_entry_of_def reactive_row_of_def with_status_key_def
      split: dict_key.splits)

lemma with_status_key_id: "has_status_key r \<Longrightarrow> with_status_key r = r"
  by (simp add: has_status_key_def with_status_key_def split: dict_key.splits)

lemma ppm_entry_roundtrip: "ppm_entry_of (ppm_row_of rid p) = p"
  by (cases p) (simp add: ppm_entry_of_def ppm_row_of_def)

lemma spare_entry_roundtrip: "spare_entry_of (spare_row_of rid x) = x"
  by (cases x) (simp add: spare_entry_of_def spare_row_of_def)

section \<open>app.py: saving, loading and replacing\<close>

lemma load_after_save:
  assumes sel: "select_report rid db' \<noteq> None"
    and rx: "select_reactives rid db' = map (reactive_row_of rid) (reactives st)"
    and pp: "select_ppms rid db' = map (ppm_row_of rid) (ppms st)"
    and sp: "select_spares rid db' = map (spare_row_of rid) (spares st)"
  shows "load_report_for_editing db' st' rid =
     (True, st'\<lparr>editing_report_id := Some rid,
                 reactives := map with_status_key (reactives st), ppms := ppms st,
                 spares := spares st\<rparr>)"
proof -
  have "map reactive_entry_of (map (reactive_row_of rid) (reactives st))
      = map with_status_key (reactives st)"
    by (simp add: reactive_entry_roundtrip)
  moreover have "map ppm_entry_of (map (ppm_row_of rid) (ppms st)) = ppms st"
    by (simp add: ppm_entry_roundtrip map_idI)
  moreover have "map spare_entry_of (map (spare_row_of rid) (spares st)) = spares st"
    by (simp add: spare_entry_roundtrip map_idI)
  ultimately show ?thesis
    using sel by (auto simp: load_report_for_editing_def rx pp sp)
qed

lemma save_then_select:
  assumes save: "save_report_to_db db fault st rd now = (db', Inr rid)"
    and known: "children_known db" and editing: "editing_known db st"
  shows "select_report rid db' \<noteq> None"
    and "select_reactives rid db' = map (reactive_row_of rid) (reactives st)"
    and "select_ppms rid db' = map (ppm_row_of rid) (ppms st)"
    and "select_spares rid db' = map (spare_row_of rid) (spares st)"
proof -
  have "select_report rid db' \<noteq> None
      \<and> select_reactives rid db' = map (reactive_row_of rid) (reactives st)
      \<and> select_ppms rid db' = map (ppm_row_of rid) (ppms st)
      \<and> select_spares rid db' = map (spare_row_of rid) (spares st)"
  proof (cases "editing_report_id st = None \<or> editing_report_id st = Some 0")
    case True
    from save_report_to_db_create [OF save True known] show ?thesis by simp
  next
    case False
    then obtain e where e: "editing_report_id st = Some e" "e \<noteq> 0" by auto
    from editing e have "e \<in> set (map rep_id (t_reports db))"
      by (simp add: editing_known_def)
    with save_report_to_db_update [OF save e] show ?thesis
      by (simp add: select_report_None_iff)
  qed
  then show "select_report rid db' \<noteq> None"
    and "select_reactives rid db' = map (reactive_row_of rid) (reactives st)"
    and "select_ppms rid db' = map (ppm_row_of rid) (ppms st)"
    and "select_spares rid db' = map (spare_row_of rid) (spares st)"
    by simp_all
qed

subsection \<open>Every reactive entry of a session of app.py has the key Status\<close>

lemma init_session_state_keys: "list_all has_status_key (reactives init_session_state)"
  by (simp add: init_session_state_def)

lemma add_reactive_keys:
  "list_all has_status_key (reactives st) \<Longrightarrow>
     list_all has_status_key (reactives (add_reactive a t1 t2 f s n d st))"
  by (simp add: add_reactive_def Let_def has_status_key_def)

lemma show_shift_log_auto_keys:
  "list_all has_status_key (reactives st) \<Longrightarrow>
     list_all has_status_key (reactives (show_shift_log_auto db smart st))"
  by (auto simp: show_shift_log_auto_def Let_def check_carry_over_tasks_def list_all_iff
      has_status_key_def carry_over_entry_def)

lemma load_report_for_editing_keys:
  "list_all has_status_key (reactives st) \<Longrightarrow>
     list_all has_status_key (reactives (snd (load_report_for_editing db st report_id)))"
  by (auto simp: load_report_for_editing_def list_all_iff has_status_key_def
      reactive_entry_of_def split: option.splits)

lemma cancel_editing_keys: "list_all has_status_key (reactives (cancel_editing st))"
  by (simp add: cancel_editing_def)

text \<open>
  C3. A report saved from the child lists of a session, then loaded for editing, puts the
  same child entries back into the session, whatever their order: the same count and the
  same entries as multisets for reactives, PPMs and spares. A status that is
  \<^verbatim>\<open>None\<close> is stored as \<^verbatim>\<open>NULL\<close> and comes back as \<^verbatim>\<open>None\<close>. The reactive entries
  come back exactly when they have the key \<^verbatim>\<open>Status\<close>, which every entry in a session
  of app.py has (lemmas above); an entry without the key comes back with the key and the
  value \<^verbatim>\<open>Complete\<close> that the save stored for it. The store is one that the programs
  produce (\<open>children_known\<close>, \<open>editing_known\<close>).
\<close>

theorem save_then_load_same_children:
  assumes "save_report_to_db db fault st rd now = (db', Inr rid)"
    and "children_known db" and "editing_known db st"
  shows "fst (load_report_for_editing db' st' rid)
     \<and> editing_report_id (snd (load_report_for_editing db' st' rid)) = Some rid
     \<and> mset (reactives (snd (load_report_for_editing db' st' rid)))
         = mset (map with_status_key (reactives st))
     \<and> (list_all has_status_key (reactives st) \<longrightarrow>
          mset (reactives (snd (load_report_for_editing db' st' rid))) = mset (reactives st))
     \<and> mset (ppms (snd (load_report_for_editing db' st' rid))) = mset (ppms st)
     \<and> mset (spares (snd (load_report_for_editing db' st' rid))) = mset (spares st)
     \<and> length (reactives (snd (load_report_for_editing db' st' rid))) = length (reactives st)
     \<and> length (ppms (snd (load_report_for_editing db' st' rid))) = length (ppms st)
     \<and> length (spares (snd (load_report_for_editing db' st' rid))) = length (spares st)"
proof -
  have "list_all has_status_key (reactives st) \<Longrightarrow>
      map with_status_key (reactives st) = reactives st"
    by (simp add: list_all_iff with_status_key_id map_idI)
  with load_after_save [OF save_then_select [OF assms], of st'] show ?thesis
    by auto
qed

theorem save_then_load_same_children_witness:
  "save_report_to_db empty_store None example_session example_report_data ''now''
     = (fst (save_report_to_db empty_store None example_session example_report_data ''now''), Inr 1)
   \<and> children_known empty_store \<and> editing_known empty_store example_session
   \<and> list_all has_status_key (reactives example_session)
   \<and> mset (reactives (snd (load_report_for_editing
        (fst (save_report_to_db empty_store None example_session example_report_data ''now''))
        init_session_state 1))) = {#example_reactive_2, example_reactive#}
   \<and> mset (ppms (snd (load_report_for_editing
        (fst (save_report_to_db empty_store None example_session example_report_data ''now''))
        init_session_state 1))) = {#example_ppm_2, example_ppm#}
   \<and> mset (spares (snd (load_report_for_editing
        (fst (save_report_to_db empty_store None example_session example_report_data ''now''))
        init_session_state 1))) = {#example_spare_2, example_spare#}"
proof -
  have s: "save_report_to_db empty_store None example_session example_report_data ''now''
     = (fst (save_report_to_db empty_store None example_session example_report_data ''now''), Inr 1)"
    by (simp add: save_report_to_db_def write_header_def insert_details_def connect_def
        execute_def commit_def example_session_def empty_store_def insert_report_def
        next_report_id_def)
  have k: "children_known empty_store"
    by (simp add: children_known_def empty_store_def)
  have e: "editing_known empty_store example_session"
    by (simp add: editing_known_def example_session_def)
  have p: "list_all has_status_key (reactives example_session)"
    by (simp add: has_status_key_def example_session_def example_reactive_def
        example_reactive_2_def)
  have w: "with_status_key example_reactive = example_reactive"
    "with_status_key example_reactive_2 = example_reactive_2"
    by (simp_all add: with_status_key_def example_reactive_def example_reactive_2_def)
  from save_then_load_same_children [OF s k e, of init_session_state] s k e p
  show ?thesis by (simp add: example_session_def add_mset_commute w)
qed

text \<open>
  C4. Replacing the children of a report twice, first with the lists of one session and
  then with the lists of another, leaves under that report id, in each of the three child
  tables, exactly one row for each entry of the second session, column for column with
  the values of that entry; nothing of the first session remains. This holds for any two
  sessions, disjoint or not.
\<close>

theorem replace_children_twice:
  assumes "editing_report_id stA = Some rid" and "editing_report_id stB = Some rid"
    and "rid \<noteq> 0"
    and "save_report_to_db db faultA stA rdA nowA = (db1, Inr r1)"
    and "save_report_to_db db1 faultB stB rdB nowB = (db2, Inr r2)"
  shows "r1 = rid \<and> r2 = rid
     \<and> map rx_asset (select_reactives rid db2) = map r_Asset (reactives stB)
     \<and> map rx_time_called (select_reactives rid db2) = map r_Time_Called (reactives stB)
     \<and> map rx_time_back (select_reactives rid db2) = map r_Time_Back (reactives stB)
     \<and> map rx_fault (select_reactives rid db2) = map r_Fault (reactives stB)
     \<and> map rx_engineers (select_reactives rid db2) = map r_Engineers (reactives stB)
     \<and> map rx_description (select_reactives rid db2) = map r_Description (reactives stB)
     \<and> map rx_downtime (select_reactives rid db2) = map r_Downtime_min (reactives stB)
     \<and> map rx_status (select_reactives rid db2)
         = map (\<lambda>r. case r_Status r of Key_absent \<Rightarrow> Some ''Complete'' | Key v \<Rightarrow> v)
             (reactives stB)
     \<and> map pp_asset (select_ppms rid db2) = map p_Asset (ppms stB)
     \<and> map pp_ppm_id (select_ppms rid db2) = map p_PPM_ID (ppms stB)
     \<and> map pp_status (select_ppms rid db2) = map p_Status (ppms stB)
     \<and> map pp_comments (select_ppms rid db2) = map p_Comments (ppms stB)
     \<and> map sp_art_number (select_spares rid db2) = map s_ART (spares stB)
     \<and> map sp_description (select_spares rid db2) = map s_Description (spares stB)
     \<and> map sp_location (select_spares rid db2) = map s_Location (spares stB)
     \<and> map sp_category (select_spares rid db2) = map s_Category (spares stB)
     \<and> map sp_quantity (select_spares rid db2) = map s_Quantity (spares stB)
     \<and> map sp_decision (select_spares rid db2) = map s_Decision (spares stB)"
  using save_report_to_db_update [OF assms(4) assms(1) assms(3)]
    save_report_to_db_update [OF assms(5) assms(2) assms(3)]
  by (simp add: reactive_row_of_def ppm_row_of_def spare_row_of_def comp_def)

theorem replace_children_twice_witness:
  "\<exists>db0 db1 db2.
     save_report_to_db empty_store None example_session example_report_data ''t0''
         = (db0, Inr 1)
     \<and> select_report 1 db0 \<noteq> None
     \<and> editing_report_id example_edit_A = Some 1 \<and> editing_report_id example_edit_B = Some 1
     \<and> (1::nat) \<noteq> 0
     \<and> save_report_to_db db0 None example_edit_A example_report_data ''t1'' = (db1, Inr 1)
     \<and> save_report_to_db db1 None example_edit_B example_report_data ''t2'' = (db2, Inr 1)
     \<and> map rx_asset (select_reactives 1 db2) = [''Palletiser'']
     \<and> map rx_description (select_reactives 1 db2) = [''jam'']
     \<and> map rx_status (select_reactives 1 db2) = [Some ''Complete'']
     \<and> map pp_asset (select_ppms 1 db2) = [''Palletiser'']
     \<and> map pp_ppm_id (select_ppms 1 db2) = [''P-2'']
     \<and> map sp_art_number (select_spares 1 db2) = [''A3'']
     \<and> map sp_quantity (select_spares 1 db2) = [4]"
proof -
  have a: "editing_report_id example_edit_A = Some 1"
    by (simp add: example_edit_A_def)
  have b: "editing_report_id example_edit_B = Some 1"
    by (simp add: example_edit_B_def)
  have n: "(1::nat) \<noteq> 0" by simp
  obtain db0 r0 where s0:
    "save_report_to_db empty_store None example_session example_report_data ''t0'' = (db0, Inr r0)"
    using save_report_to_db_returns by blast
  have k: "children_known empty_store"
    by (simp add: children_known_def empty_store_def)
  have e: "editing_known empty_store example_session"
    by (simp add: editing_known_def example_session_def)
  have none: "editing_report_id example_session = None \<or> editing_report_id example_session = Some 0"
    by (simp add: example_session_def)
  have r0: "r0 = 1"
    using save_report_to_db_create(1) [OF s0 none k]
    by (simp add: next_report_id_def empty_store_def)
  have sel: "select_report 1 db0 \<noteq> None"
    using save_then_select(1) [OF s0 k e] r0 by simp
  obtain db1 r1 where s1:
    "save_report_to_db db0 None example_edit_A example_report_data ''t1'' = (db1, Inr r1)"
    using save_report_to_db_returns by blast
  obtain db2 r2 where s2:
    "save_report_to_db db1 None example_edit_B example_report_data ''t2'' = (db2, Inr r2)"
    using save_report_to_db_returns by blast
  from replace_children_twice [OF a b n s1 s2] s0 r0 sel s1 s2 a b
  show ?thesis
    by (auto simp: example_edit_B_def example_reactive_3_def example_ppm_3_def
        example_spare_3_def)
qed

section \<open>shift\_log.py: saving a report\<close>

lemma save_spare_Inr:
  assumes "save_spare rid x c = Inr c'"
  shows "working c' = update_stock (ls_Quantity x) (ls_ART x) (insert_spare_used rid x (working c))
     \<and> committed c' = committed c"
proof -
  from assms obtain c1 where a: "execute (insert_spare_used rid x) c = Inr c1"
    and b: "execute (update_stock (ls_Quantity x) (ls_ART x)) c1 = Inr c'"
    by (auto simp: save_spare_def split: sum.splits)
  from execute_Inr [OF a] execute_Inr [OF b] show ?thesis by simp
qed


lemma save_spare_no_fault:
  "fail_after c = None \<Longrightarrow>
     save_spare rid x c = Inr (c\<lparr>working :=
       update_stock (ls_Quantity x) (ls_ART x) (insert_spare_used rid x (working c))\<rparr>)"
  by (simp add: save_spare_def execute_no_fault)

lemma fold_sl_insert_reactive:
  "fold (sl_insert_reactive rid) rs s
     = s\<lparr>t_reactives := t_reactives s @ map (sl_reactive_row_of rid) rs\<rparr>"
  by (induction rs arbitrary: s) (simp_all add: sl_insert_reactive_def)

lemma quantity_used_Cons:
  "quantity_used (x # xs) art = (if ls_ART x = art then ls_Quantity x else 0) + quantity_used xs art"
  by (simp add: quantity_used_def)

lemma fold_save_spare:
  "fold (\<lambda>x. update_stock (ls_Quantity x) (ls_ART x) \<circ> insert_spare_used rid x) xs s
     = s\<lparr>t_spares_used := t_spares_used s @ map (spare_used_row_of rid) xs,
         t_spares_inventory :=
           map (\<lambda>i. i\<lparr>inv_stock_level := inv_stock_level i - quantity_used xs (inv_art_number i)\<rparr>)
             (t_spares_inventory s)\<rparr>"
proof (induction xs arbitrary: s)
  case Nil
  then show ?case by (simp add: quantity_used_def)
next
  case (Cons x xs)
  have step: "(\<lambda>i. i\<lparr>inv_stock_level := inv_stock_level i - quantity_used xs (inv_art_number i)\<rparr>)
        \<circ> (\<lambda>i. if inv_art_number i = ls_ART x
                  then i\<lparr>inv_stock_level := inv_stock_level i - ls_Quantity x\<rparr> else i)
      = (\<lambda>i. i\<lparr>inv_stock_level :=
              inv_stock_level i - quantity_used (x # xs) (inv_art_number i)\<rparr>)"
    by (rule ext) (simp add: quantity_used_Cons algebra_simps)
  have "fold (\<lambda>x. update_stock (ls_Quantity x) (ls_ART x) \<circ> insert_spare_used rid x) (x # xs) s
      = fold (\<lambda>x. update_stock (ls_Quantity x) (ls_ART x) \<circ> insert_spare_used rid x) xs
          (update_stock (ls_Quantity x) (ls_ART x) (insert_spare_used rid x s))"
    by simp
  also have "\<dots> = s\<lparr>t_spares_used := t_spares_used s @ map (spare_used_row_of rid) (x # xs),
         t_spares_inventory :=
           map (\<lambda>i. i\<lparr>inv_stock_level :=
                  inv_stock_level i - quantity_used (x # xs) (inv_art_number i)\<rparr>)
             (t_spares_inventory s)\<rparr>"
    unfolding Cons.IH by (simp add: update_stock_def insert_spare_used_def step)
  finally show ?case .
qed

lemma for_each_save_spare_Inr:
  assumes "for_each (save_spare rid) xs c = Inr c'"
  shows "working c' = fold (\<lambda>x. update_stock (ls_Quantity x) (ls_ART x)
        \<circ> insert_spare_used rid x) xs (working c)"
    and "committed c' = committed c"
proof -
  have "working c' = fold (\<lambda>x. update_stock (ls_Quantity x) (ls_ART x)
        \<circ> insert_spare_used rid x) xs (working c) \<and> committed c' = committed c"
  proof (rule for_each_Inr [where body = "save_spare rid"])
    show "for_each (save_spare rid) xs c = Inr c'" by (rule assms)
  next
    fix x c c'
    assume "save_spare rid x c = Inr c'"
    from save_spare_Inr [OF this]
    show "working c' = (update_stock (ls_Quantity x) (ls_ART x) \<circ> insert_spare_used rid x)
        (working c) \<and> committed c' = committed c"
      by simp
  qed
  then show "working c' = fold (\<lambda>x. update_stock (ls_Quantity x) (ls_ART x)
        \<circ> insert_spare_used rid x) xs (working c)"
    and "committed c' = committed c"
    by simp_all
qed


lemma for_each_save_spare_no_fault:
  assumes "fail_after c = None"
  shows "for_each (save_spare rid) xs c
      = Inr (c\<lparr>working := fold (\<lambda>x. update_stock (ls_Quantity x) (ls_ART x)
          \<circ> insert_spare_used rid x) xs (working c)\<rparr>)"
  using assms by (intro for_each_no_fault) (simp_all add: save_spare_no_fault)


lemma sl_write_rows_Inr:
  assumes "sl_write_rows st sd now c = Inr (rid, c')"
  shows "committed c' = committed c"
    and "rid = next_report_id (working c)"
    and "working c' = fold (\<lambda>x. update_stock (ls_Quantity x) (ls_ART x)
        \<circ> insert_spare_used rid x) (sl_spares st)
          (fold (sl_insert_reactive rid) (sl_reactives st) (sl_insert_report sd now (working c)))"
proof -
  obtain c0 where c0: "execute (sl_insert_report sd now) c = Inr c0"
    using assms by (cases "execute (sl_insert_report sd now) c") (simp_all add: sl_write_rows_def)
  obtain c1 where c1: "for_each (\<lambda>r. execute (sl_insert_reactive (reports_seq (working c0)) r))
      (sl_reactives st) c0 = Inr c1"
    using assms c0
    by (cases "for_each (\<lambda>r. execute (sl_insert_reactive (reports_seq (working c0)) r))
        (sl_reactives st) c0") (simp_all add: sl_write_rows_def)
  obtain c2 where c2: "for_each (save_spare (reports_seq (working c0))) (sl_spares st) c1 = Inr c2"
    using assms c0 c1
    by (cases "for_each (save_spare (reports_seq (working c0))) (sl_spares st) c1")
      (simp_all add: sl_write_rows_def)
  from assms c0 c1 c2 have rid: "rid = reports_seq (working c0)" and c': "c' = c2"
    by (simp_all add: sl_write_rows_def)
  have w0: "working c0 = sl_insert_report sd now (working c)"
    and k0: "committed c0 = committed c"
    using execute_Inr [OF c0] by simp_all
  show "rid = next_report_id (working c)"
    using rid w0 by (simp add: sl_insert_report_def)
  have w1: "working c1 = fold (sl_insert_reactive rid) (sl_reactives st) (working c0)"
    and k1: "committed c1 = committed c0"
    using statements_Inr [OF c1] rid by simp_all
  from for_each_save_spare_Inr [OF c2] rid c' w1 w0 k1 k0
  show "committed c' = committed c"
    and "working c' = fold (\<lambda>x. update_stock (ls_Quantity x) (ls_ART x)
        \<circ> insert_spare_used rid x) (sl_spares st)
          (fold (sl_insert_reactive rid) (sl_reactives st) (sl_insert_report sd now (working c)))"
    by simp_all
qed


lemma sl_save_report_returned:
  assumes "sl_save_report db fault st sd now = (db', Inr rid)"
  shows "rid = next_report_id db"
    and "db' = (sl_insert_report sd now db)\<lparr>
        t_reactives := t_reactives db @ map (sl_reactive_row_of rid) (sl_reactives st),
        t_spares_used := t_spares_used db @ map (spare_used_row_of rid) (sl_spares st),
        t_spares_inventory :=
          map (\<lambda>i. i\<lparr>inv_stock_level :=
                 inv_stock_level i - quantity_used (sl_spares st) (inv_art_number i)\<rparr>)
            (t_spares_inventory db)\<rparr>"
proof -
  obtain b where b: "sl_write_rows st sd now (connect db fault) = Inr b"
    using assms
    by (cases "sl_write_rows st sd now (connect db fault)")
      (auto simp: sl_save_report_def)
  obtain r c2 where rc: "b = (r, c2)" by (cases b)
  obtain c3 where c3: "commit c2 = Inr c3"
    using assms b rc by (cases "commit c2") (auto simp: sl_save_report_def)
  from assms b rc c3 have r: "r = rid" and db': "db' = committed c3"
    by (simp_all add: sl_save_report_def)
  from b rc r have rows: "sl_write_rows st sd now (connect db fault) = Inr (rid, c2)" by simp
  show "rid = next_report_id db"
    using sl_write_rows_Inr(2) [OF rows] by (simp add: connect_def)
  have "db' = working c2" using db' commit_Inr [OF c3] by simp
  also have "\<dots> = fold (\<lambda>x. update_stock (ls_Quantity x) (ls_ART x)
        \<circ> insert_spare_used rid x) (sl_spares st)
          (fold (sl_insert_reactive rid) (sl_reactives st) (sl_insert_report sd now db))"
    using sl_write_rows_Inr(3) [OF rows] by (simp add: connect_def)
  also have "\<dots> = (sl_insert_report sd now db)\<lparr>
        t_reactives := t_reactives db @ map (sl_reactive_row_of rid) (sl_reactives st),
        t_spares_used := t_spares_used db @ map (spare_used_row_of rid) (sl_spares st),
        t_spares_inventory :=
          map (\<lambda>i. i\<lparr>inv_stock_level :=
                 inv_stock_level i - quantity_used (sl_spares st) (inv_art_number i)\<rparr>)
            (t_spares_inventory db)\<rparr>"
    by (simp add: fold_save_spare fold_sl_insert_reactive sl_insert_report_def)
  finally show "db' = (sl_insert_report sd now db)\<lparr>
        t_reactives := t_reactives db @ map (sl_reactive_row_of rid) (sl_reactives st),
        t_spares_used := t_spares_used db @ map (spare_used_row_of rid) (sl_spares st),
        t_spares_inventory :=
          map (\<lambda>i. i\<lparr>inv_stock_level :=
                 inv_stock_level i - quantity_used (sl_spares st) (inv_art_number i)\<rparr>)
            (t_spares_inventory db)\<rparr>" .
qed

lemma sl_save_report_returns:
  "\<exists>db' rid. sl_save_report db None st sd now = (db', Inr rid)"
  by (simp add: sl_save_report_def sl_write_rows_def execute_no_fault statements_no_fault
      for_each_save_spare_no_fault commit_no_fault connect_def)

section \<open>shift\_log.py: stock after a save\<close>

lemma quantity_used_absent:
  "(\<And>x. x \<in> set xs \<Longrightarrow> ls_ART x \<noteq> art) \<Longrightarrow> quantity_used xs art = 0"
  by (simp add: quantity_used_def filter_none)

text \<open>
  C5. A report saved by shift\_log.py lowers the stock level of every inventory item by
  the quantities of the spare entries that name its part number, and changes nothing else
  in the inventory: with one spare entry of part \<open>p\<close> and quantity \<open>q\<close>, the item \<open>p\<close>
  loses exactly \<open>q\<close> and every other item stays. When no inventory item has the part
  number of an entry, the inventory stays as it is; the save does not raise for it, it
  returns the new report id whenever the engine accepts the statements.
\<close>

theorem spare_usage_lowers_stock:
  assumes "sl_save_report db fault st sd now = (db', Inr rid)"
  shows "t_spares_inventory db'
       = map (\<lambda>i. i\<lparr>inv_stock_level :=
                 inv_stock_level i - quantity_used (sl_spares st) (inv_art_number i)\<rparr>)
           (t_spares_inventory db)
     \<and> (\<forall>x. sl_spares st = [x] \<longrightarrow>
          t_spares_inventory db'
            = map (\<lambda>i. if inv_art_number i = ls_ART x
                      then i\<lparr>inv_stock_level := inv_stock_level i - ls_Quantity x\<rparr> else i)
                (t_spares_inventory db))
     \<and> ((\<forall>x \<in> set (sl_spares st). ls_ART x \<notin> set (map inv_art_number (t_spares_inventory db)))
          \<longrightarrow> t_spares_inventory db' = t_spares_inventory db)
     \<and> (\<exists>d r. sl_save_report db None st sd now = (d, Inr r))"
proof -
  let ?inv = "t_spares_inventory db"
  have all: "t_spares_inventory db'
       = map (\<lambda>i. i\<lparr>inv_stock_level :=
                 inv_stock_level i - quantity_used (sl_spares st) (inv_art_number i)\<rparr>) ?inv"
    using sl_save_report_returned(2) [OF assms] by simp
  have one: "t_spares_inventory db'
            = map (\<lambda>i. if inv_art_number i = ls_ART x
                      then i\<lparr>inv_stock_level := inv_stock_level i - ls_Quantity x\<rparr> else i) ?inv"
    if "sl_spares st = [x]" for x
    unfolding all that by (rule map_cong) (simp_all add: quantity_used_def)
  have none: "t_spares_inventory db' = ?inv"
    if "\<forall>x \<in> set (sl_spares st). ls_ART x \<notin> set (map inv_art_number ?inv)"
  proof -
    have "quantity_used (sl_spares st) (inv_art_number i) = 0" if "i \<in> set ?inv" for i
      using that \<open>\<forall>x \<in> set (sl_spares st). ls_ART x \<notin> set (map inv_art_number ?inv)\<close>
      by (intro quantity_used_absent) auto
    then have "map (\<lambda>i. i\<lparr>inv_stock_level :=
                 inv_stock_level i - quantity_used (sl_spares st) (inv_art_number i)\<rparr>) ?inv
        = map (\<lambda>i. i) ?inv"
      by (intro map_cong) simp_all
    with all show ?thesis by simp
  qed
  from all one none sl_save_report_returns [of db st sd now] show ?thesis by blast
qed

theorem spare_usage_lowers_stock_witness:
  "sl_save_report example_stocked_store None example_sl_session example_shift_data ''now''
     = (fst (sl_save_report example_stocked_store None example_sl_session example_shift_data
          ''now''), Inr 1)
   \<and> map inv_art_number (t_spares_inventory (fst (sl_save_report example_stocked_store None
        example_sl_session example_shift_data ''now''))) = [''A1'', ''A2'']
   \<and> map inv_stock_level (t_spares_inventory (fst (sl_save_report example_stocked_store None
        example_sl_session example_shift_data ''now''))) = [7, 7]
   \<and> sl_save_report example_stocked_store None example_sl_session_absent example_shift_data ''now''
     = (fst (sl_save_report example_stocked_store None example_sl_session_absent
          example_shift_data ''now''), Inr 1)
   \<and> t_spares_inventory (fst (sl_save_report example_stocked_store None
        example_sl_session_absent example_shift_data ''now'')) = example_inventory"
proof -
  have a: "sl_save_report example_stocked_store None example_sl_session example_shift_data ''now''
     = (fst (sl_save_report example_stocked_store None example_sl_session example_shift_data
          ''now''), Inr 1)"
    by (simp add: sl_save_report_def sl_write_rows_def connect_def execute_def commit_def
        save_spare_def sl_insert_report_def next_report_id_def example_stocked_store_def
        empty_store_def example_sl_session_def)
  have b: "sl_save_report example_stocked_store None example_sl_session_absent example_shift_data
       ''now''
     = (fst (sl_save_report example_stocked_store None example_sl_session_absent
          example_shift_data ''now''), Inr 1)"
    by (simp add: sl_save_report_def sl_write_rows_def connect_def execute_def commit_def
        save_spare_def sl_insert_report_def next_report_id_def example_stocked_store_def
        empty_store_def example_sl_session_absent_def)
  have inv: "t_spares_inventory example_stocked_store = example_inventory"
    by (simp add: example_stocked_store_def empty_store_def)
  have absent: "\<forall>x \<in> set (sl_spares example_sl_session_absent).
      ls_ART x \<notin> set (map inv_art_number (t_spares_inventory example_stocked_store))"
    by (simp add: inv example_sl_session_absent_def example_inventory_def)
  have one: "sl_spares example_sl_session = [example_sl_spare]"
    by (simp add: example_sl_session_def)
  have "t_spares_inventory (fst (sl_save_report example_stocked_store None example_sl_session
        example_shift_data ''now''))
      = map (\<lambda>i. if inv_art_number i = ls_ART example_sl_spare
                then i\<lparr>inv_stock_level := inv_stock_level i - ls_Quantity example_sl_spare\<rparr>
                else i) (t_spares_inventory example_stocked_store)"
    by (rule spare_usage_lowers_stock [OF a, THEN conjunct2, THEN conjunct1, THEN spec,
          THEN mp, OF one])
  moreover have "t_spares_inventory (fst (sl_save_report example_stocked_store None
        example_sl_session_absent example_shift_data ''now''))
      = t_spares_inventory example_stocked_store"
    by (rule spare_usage_lowers_stock [OF b, THEN conjunct2, THEN conjunct2, THEN conjunct1,
          THEN mp, OF absent])
  ultimately show ?thesis
    using a b by (simp add: inv example_inventory_def example_sl_spare_def)
qed

section \<open>All or nothing\<close>






section \<open>Low-stock detection\<close>

lemma boolean_index_map:
  "boolean_index df (map p df) = filter p df"
  by (induction df) (simp_all add: boolean_index_def)

lemma series_le_columns:
  "series_le (map f df) (map g df) = map (\<lambda>r. f r \<le> g r) df"
  by (induction df) (simp_all add: series_le_def)

text \<open>
  C6. Low-stock detection returns exactly the inventory rows whose stock level is at
  most their minimum stock level (a row whose two levels are equal is included), in the
  order of the inventory and for every inventory.
\<close>

theorem low_stock_exact:
  "low_stock df = filter (\<lambda>r. inv_stock_level r \<le> inv_min_stock_level r) df
   \<and> set (low_stock df) = {r. r \<in> set df \<and> inv_stock_level r \<le> inv_min_stock_level r}"
  by (auto simp: low_stock_def series_le_columns boolean_index_map)

lemma low_stock_examples:
  "low_stock
     [\<lparr>inv_art_number = ''A1'', inv_description = ''belt'', inv_location = ''R1'',
        inv_category = ''General'', inv_stock_level = 2, inv_min_stock_level = 5\<rparr>,
      \<lparr>inv_art_number = ''A2'', inv_description = ''fuse'', inv_location = ''R2'',
        inv_category = ''General'', inv_stock_level = 5, inv_min_stock_level = 5\<rparr>,
      \<lparr>inv_art_number = ''A3'', inv_description = ''bolt'', inv_location = ''R3'',
        inv_category = ''General'', inv_stock_level = 6, inv_min_stock_level = 5\<rparr>]
   = [\<lparr>inv_art_number = ''A1'', inv_description = ''belt'', inv_location = ''R1'',
        inv_category = ''General'', inv_stock_level = 2, inv_min_stock_level = 5\<rparr>,
      \<lparr>inv_art_number = ''A2'', inv_description = ''fuse'', inv_location = ''R2'',
        inv_category = ''General'', inv_stock_level = 5, inv_min_stock_level = 5\<rparr>]"
  by (simp add: low_stock_def series_le_def boolean_index_def)

section \<open>app.py: carry-over at the start of a session\<close>







section \<open>shift\_log.py: reloading the inventory\<close>

lemma reload_rows_Inr:
  assumes "reload_rows df n d c = Inr (n', d', c')"
  shows "working c'
       = fold insert_or_replace_inventory (map catalog_row (filter (\<lambda>r. \<not> skipped r) df))
           (working c)
     \<and> committed c' = committed c \<and> d' = d
     \<and> n' = n + length (filter (\<lambda>r. \<not> skipped r) df)"
  using assms
proof (induction df arbitrary: n d c)
  case Nil
  then show ?case by simp
next
  case (Cons row rows)
  show ?case
  proof (cases "skipped row")
    case True
    with Cons.prems have "reload_rows rows n d c = Inr (n', d', c')" by simp
    from Cons.IH [OF this] True show ?thesis by simp
  next
    case False
    show ?thesis
    proof (cases "execute (insert_or_replace_inventory (catalog_row row)) c")
      case (Inl a)
      obtain e c1 where a: "a = (e, c1)" by (cases a)
      from Inl a have "e = OperationalError" by (auto dest: execute_Inl)
      with Cons.prems False Inl a show ?thesis by simp
    next
      case (Inr c1)
      with Cons.prems False have "reload_rows rows (n + 1) d c1 = Inr (n', d', c')" by simp
      from Cons.IH [OF this] execute_Inr [OF Inr] False show ?thesis by simp
    qed
  qed
qed

lemma reload_rows_Inl:
  assumes "reload_rows df n d c = Inl (e, c')"
  shows "committed c' = committed c"
  using assms
proof (induction df arbitrary: n d c)
  case Nil
  then show ?case by simp
next
  case (Cons row rows)
  show ?case
  proof (cases "skipped row")
    case True
    with Cons.prems have "reload_rows rows n d c = Inl (e, c')" by simp
    from Cons.IH [OF this] show ?thesis .
  next
    case False
    show ?thesis
    proof (cases "execute (insert_or_replace_inventory (catalog_row row)) c")
      case (Inl a)
      obtain e1 c1 where a: "a = (e1, c1)" by (cases a)
      from Inl a have e1: "e1 = OperationalError" and c1: "c1 = c"
        by (auto dest: execute_Inl)
      with Cons.prems False Inl a show ?thesis by simp
    next
      case (Inr c1)
      with Cons.prems False have "reload_rows rows (n + 1) d c1 = Inl (e, c')" by simp
      from Cons.IH [OF this] execute_Inr(2) [OF Inr] show ?thesis by simp
    qed
  qed
qed


lemma fold_insert_or_replace_other:
  "t_reports (fold insert_or_replace_inventory rows s) = t_reports s
   \<and> t_reactives (fold insert_or_replace_inventory rows s) = t_reactives s
   \<and> t_ppms (fold insert_or_replace_inventory rows s) = t_ppms s
   \<and> t_spares (fold insert_or_replace_inventory rows s) = t_spares s
   \<and> t_spares_used (fold insert_or_replace_inventory rows s) = t_spares_used s"
  by (induction rows arbitrary: s) (simp_all add: insert_or_replace_inventory_def)





lemma reload_spares_from_csv_error:
  assumes "reload_spares_from_csv db fault spares_file = (db', msg)"
    and "msg = File_not_found \<or> msg = Error_reading_CSV"
  shows "db' = db"
proof (cases spares_file)
  case Missing
  with assms show ?thesis by (simp add: reload_spares_from_csv_def)
next
  case Unreadable
  with assms show ?thesis by (simp add: reload_spares_from_csv_def)
next
  case (Frame df)
  show ?thesis
  proof (cases "execute delete_inventory (connect db fault)")
    case (Inl a)
    obtain e c where a: "a = (e, c)" by (cases a)
    from Inl a have "c = connect db fault" by (auto dest: execute_Inl)
    with assms Frame Inl a show ?thesis
      by (simp add: reload_spares_from_csv_def connect_def)
  next
    case c0: (Inr c0)
    have k0: "committed c0 = db" using execute_Inr(2) [OF c0] by (simp add: connect_def)
    show ?thesis
    proof (cases "reload_rows df 0 0 c0")
      case (Inl a)
      obtain e c where a: "a = (e, c)" by (cases a)
      from reload_rows_Inl [of df 0 0 c0 e c] Inl a k0 have "committed c = db" by simp
      with assms Frame c0 Inl a show ?thesis by (simp add: reload_spares_from_csv_def)
    next
      case (Inr b)
      obtain n1 d1 c1 where b: "b = (n1, d1, c1)" by (cases b)
      from reload_rows_Inr [of df 0 0 c0 n1 d1 c1] Inr b k0 have k1: "committed c1 = db"
        by simp
      show ?thesis
      proof (cases "commit c1")
        case (Inl a)
        obtain e c where a: "a = (e, c)" by (cases a)
        from commit_Inl [of c1 e c] Inl a have "c = c1" by simp
        with assms Frame c0 \<open>reload_rows df 0 0 c0 = Inr b\<close> b Inl a k1 show ?thesis
          by (simp add: reload_spares_from_csv_def)
      next
        case (Inr c2)
        with assms Frame c0 \<open>reload_rows df 0 0 c0 = Inr b\<close> b show ?thesis
          by (auto simp: reload_spares_from_csv_def)
      qed
    qed
  qed
qed



text \<open>
  C9. The claim asks that a reload resolves a duplicate part number by overwriting (the
  last row wins), raises nothing for it, and reports the number of duplicates. The
  statement \<^verbatim>\<open>INSERT OR REPLACE\<close> does the first two; it never raises
  \<^verbatim>\<open>IntegrityError\<close>, so the counter \<^verbatim>\<open>duplicates\<close> of the message stays 0 (lemma
  \<open>reload_spares_from_csv_loaded\<close>) and the replaced row is counted as loaded. For a
  catalog with the part number A1 in its first and in its last row and one row without a
  part number, the inventory holds A1 once, with the last row's description and
  location, and the message reads 3 loaded, 0 duplicates.
\<close>

theorem reload_reports_no_duplicates:
  "reload_spares_from_csv example_stocked_store None (Frame example_catalog)
     = (example_stocked_store\<lparr>t_spares_inventory :=
          [\<lparr>inv_art_number = ''B7'', inv_description = ''fuse'', inv_location = ''R2'',
            inv_category = ''General'', inv_stock_level = 10, inv_min_stock_level = 2\<rparr>,
           \<lparr>inv_art_number = ''A1'', inv_description = ''belt, wide'', inv_location = ''R9'',
            inv_category = ''General'', inv_stock_level = 10, inv_min_stock_level = 2\<rparr>]\<rparr>,
        Loaded 3 0)"
  by (simp add: reload_spares_from_csv_def connect_def execute_def commit_def
      delete_inventory_def insert_or_replace_inventory_def catalog_row_def skipped_def
      row_p_num_def row_desc_def row_loc_def row_get_def py_str_def example_catalog_def
      example_csv_row_def example_stocked_store_def)



end
